theory Spec2Isabelle
  imports Main
begin

section \<open>Python values\<close>

text \<open>
  Exceptions of the client (\<^verbatim>\<open>src/mcp-client/client.py\<close>). \<open>AttributeError\<close>,
  \<open>IndexError\<close> and \<open>JSONDecodeError\<close> are the ones the client's own statements
  raise; \<open>Error msg\<close> is any other subclass of \<open>Exception\<close> raised by a library call,
  with \<open>str(e) = msg\<close>; \<open>BaseError\<close> is a \<open>BaseException\<close> that is not an
  \<open>Exception\<close> (KeyboardInterrupt, CancelledError, SystemExit), which
  \<^verbatim>\<open>except Exception\<close> does not catch.
\<close>

datatype exn =
    AttributeError
  | IndexError
  | JSONDecodeError string
  | Error string
  | BaseError string

fun is_Exception :: "exn \<Rightarrow> bool" where
  "is_Exception (BaseError _) = False"
| "is_Exception _ = True"

fun str_exn :: "exn \<Rightarrow> string" where
  "str_exn AttributeError =
     [CHR 0x27] @ ''dict'' @ [CHR 0x27] @ '' object has no attribute '' @
     [CHR 0x27] @ ''content'' @ [CHR 0x27]"
| "str_exn IndexError = ''list index out of range''"
| "str_exn (JSONDecodeError m) = m"
| "str_exn (Error m) = m"
| "str_exn (BaseError m) = m"

text \<open>
  The string literals of the source are Chinese; a \<open>string\<close> is a list of bytes, so
  each literal is its UTF-8 encoding. The client only concatenates and joins them, which
  UTF-8 preserves.
\<close>

definition txt_connected_a :: string where
  "txt_connected_a = [CHR 0x0A, CHR 0xE5, CHR 0xB7, CHR 0xB2, CHR 0xE8, CHR 0xBF, CHR 0x9E,
     CHR 0xE6, CHR 0x8E, CHR 0xA5, CHR 0xE5, CHR 0x88, CHR 0xB0, CHR 0xE6, CHR 0x9C, CHR 0x8D,
     CHR 0xE5, CHR 0x8A, CHR 0xA1, CHR 0xE5, CHR 0x99, CHR 0xA8, CHR 0x20]"

definition txt_connected_b :: string where
  "txt_connected_b = [CHR 0xEF, CHR 0xBC, CHR 0x8C, CHR 0xE6, CHR 0x94, CHR 0xAF, CHR 0xE6,
     CHR 0x8C, CHR 0x81, CHR 0xE4, CHR 0xBB, CHR 0xA5, CHR 0xE4, CHR 0xB8, CHR 0x8B, CHR 0xE5,
     CHR 0xB7, CHR 0xA5, CHR 0xE5, CHR 0x85, CHR 0xB7, CHR 0x3A]"

definition txt_started :: string where
  "txt_started = [CHR 0x0A, CHR 0x4D, CHR 0x43, CHR 0x50, CHR 0x20, CHR 0xE5, CHR 0xAE,
     CHR 0xA2, CHR 0xE6, CHR 0x88, CHR 0xB7, CHR 0xE7, CHR 0xAB, CHR 0xAF, CHR 0xE5, CHR 0xB7,
     CHR 0xB2, CHR 0xE5, CHR 0x90, CHR 0xAF, CHR 0xE5, CHR 0x8A, CHR 0xA8, CHR 0xEF, CHR 0xBC,
     CHR 0x8C, CHR 0xE8, CHR 0xBE, CHR 0x93, CHR 0xE5, CHR 0x85, CHR 0xA5, CHR 0xE4, CHR 0xBD,
     CHR 0xA0, CHR 0xE7, CHR 0x9A, CHR 0x84, CHR 0xE9, CHR 0x97, CHR 0xAE, CHR 0xE9, CHR 0xA2,
     CHR 0x98, CHR 0xEF, CHR 0xBC, CHR 0x8C, CHR 0xE8, CHR 0xBE, CHR 0x93, CHR 0xE5, CHR 0x85,
     CHR 0xA5, CHR 0x20, CHR 0x27, CHR 0x71, CHR 0x75, CHR 0x69, CHR 0x74, CHR 0x27, CHR 0x20,
     CHR 0xE9, CHR 0x80, CHR 0x80, CHR 0xE5, CHR 0x87, CHR 0xBA, CHR 0xE3, CHR 0x80, CHR 0x82]"

definition txt_prompt :: string where
  "txt_prompt = [CHR 0x0A, CHR 0xE9, CHR 0x97, CHR 0xAE, CHR 0xE9, CHR 0xA2, CHR 0x98,
     CHR 0x3A, CHR 0x20]"

definition txt_error :: string where
  "txt_error = [CHR 0x0A, CHR 0xE5, CHR 0x8F, CHR 0x91, CHR 0xE7, CHR 0x94, CHR 0x9F,
     CHR 0xE9, CHR 0x94, CHR 0x99, CHR 0xE8, CHR 0xAF, CHR 0xAF, CHR 0x3A, CHR 0x20]"

definition txt_call_a :: string where
  "txt_call_a = [CHR 0xE8, CHR 0xB0, CHR 0x83, CHR 0xE7, CHR 0x94, CHR 0xA8, CHR 0xE5,
     CHR 0xB7, CHR 0xA5, CHR 0xE5, CHR 0x85, CHR 0xB7, CHR 0x20]"

definition txt_call_b :: string where
  "txt_call_b = [CHR 0x20, CHR 0xE5, CHR 0x87, CHR 0xBA, CHR 0xE9, CHR 0x94, CHR 0x99,
     CHR 0xEF, CHR 0xBC, CHR 0x9A]"

definition txt_annot_a :: string where
  "txt_annot_a = [CHR 0x5B, CHR 0xE8, CHR 0xB0, CHR 0x83, CHR 0xE7, CHR 0x94, CHR 0xA8,
     CHR 0xE5, CHR 0xB7, CHR 0xA5, CHR 0xE5, CHR 0x85, CHR 0xB7, CHR 0x20]"

definition txt_annot_b :: string where
  "txt_annot_b = [CHR 0x20, CHR 0xE5, CHR 0x8F, CHR 0x82, CHR 0xE6, CHR 0x95, CHR 0xB0,
     CHR 0x3A, CHR 0x20]"

definition txt_result :: string where
  "txt_result = [CHR 0xE5, CHR 0xB7, CHR 0xA5, CHR 0xE5, CHR 0x85, CHR 0xB7, CHR 0xE7,
     CHR 0xBB, CHR 0x93, CHR 0xE6, CHR 0x9E, CHR 0x9C, CHR 0x3A, CHR 0x20]"

definition txt_tool :: string where
  "txt_tool = [CHR 0xE5, CHR 0xB7, CHR 0xA5, CHR 0xE5, CHR 0x85, CHR 0xB7, CHR 0x20]"

definition txt_not_found :: string where
  "txt_not_found = [CHR 0x20, CHR 0xE6, CHR 0x9C, CHR 0xAA, CHR 0xE6, CHR 0x89, CHR 0xBE,
     CHR 0xE5, CHR 0x88, CHR 0xB0]"

text \<open>\<^verbatim>\<open>sep.join(xs)\<close>\<close>

fun py_join :: "string \<Rightarrow> string list \<Rightarrow> string" where
  "py_join sep [] = []"
| "py_join sep [x] = x"
| "py_join sep (x # y # ys) = x @ sep @ py_join sep (y # ys)"

text \<open>\<^verbatim>\<open>f"{i}"\<close> for a non-negative integer: its decimal digits.\<close>

definition digit_char :: "nat \<Rightarrow> char" where
  "digit_char d = char_of (48 + d)"

fun str_nat :: "nat \<Rightarrow> string" where
  "str_nat n = (if n < 10 then [digit_char n] else str_nat (n div 10) @ [digit_char (n mod 10)])"

declare str_nat.simps [simp del]

text \<open>
  A Python \<open>dict\<close> keeps its keys in insertion order; \<^verbatim>\<open>d[k] = v\<close> replaces the
  value of a key already there, in place, and appends a new key otherwise.
\<close>

fun dict_set :: "'k \<Rightarrow> 'v \<Rightarrow> ('k \<times> 'v) list \<Rightarrow> ('k \<times> 'v) list" where
  "dict_set k v [] = [(k, v)]"
| "dict_set k v ((k', v') # d) = (if k' = k then (k, v) # d else (k', v') # dict_set k v d)"

section \<open>Data model\<close>

text \<open>A tool as a session's \<open>list_tools\<close> advertises it; \<open>'j\<close> is the type of JSON values.\<close>

record 'j tool =
  name :: string
  description :: string
  inputSchema :: 'j

text \<open>An entry of \<open>available_tools\<close> (client.py:117-124), the catalog sent to the model.\<close>

record 'j tool_spec =
  fn_name :: string
  fn_description :: string
  fn_parameters :: 'j

text \<open>A tool call of a model response: \<open>id\<close>, \<open>function.name\<close>, \<open>function.arguments\<close>.\<close>

record tool_call =
  tc_id :: string
  tc_name :: string
  tc_arguments :: string

text \<open>\<open>response.choices[i].message\<close>: both fields may be \<open>None\<close>.\<close>

record message =
  content :: "string option"
  tool_calls :: "tool_call list option"

text \<open>The dictionaries appended to \<open>messages\<close> (client.py:110, 150-160).\<close>

datatype chat_message =
    UserMsg string
  | AssistantToolCall string string string
  | ToolMsg string string

text \<open>What \<open>call_tool\<close> returns: the code reads \<open>content\<close> only.\<close>

record 'c call_tool_result =
  result_content :: 'c
  isError :: bool

text \<open>
  The variable \<open>result\<close> of client.py:143-145 holds the object \<open>call_tool\<close> returned,
  or the \<open>dict\<close> the \<open>except\<close> branch builds.
\<close>

datatype 'c result_obj =
    ToolResult "'c call_tool_result"
  | DictResult string

text \<open>\<open>result.content\<close>: an attribute read, which a \<open>dict\<close> does not have.\<close>

fun attr_content :: "'c result_obj \<Rightarrow> exn + 'c" where
  "attr_content (ToolResult r) = Inr (result_content r)"
| "attr_content (DictResult _) = Inl AttributeError"

text \<open>\<open>result["content"]\<close>: a subscript, which only the \<open>dict\<close> is read with.\<close>

fun item_content :: "'c result_obj \<Rightarrow> string" where
  "item_content (DictResult c) = c"
| "item_content (ToolResult _) = []"

text \<open>Resources entered on the \<open>AsyncExitStack\<close>: a transport or a session, by handle.\<close>

datatype resource = Transport nat | Session nat

datatype connector = Stdio | Sse

record client =
  model_name :: string
  server_sources :: "string list"
  sessions :: "(string \<times> nat) list"
  tool_mapping :: "(string \<times> nat \<times> string) list"
  exit_stack :: "resource list"

text \<open>\<open>MCPClient.__init__\<close> (client.py:23-28)\<close>

definition MCPClient :: "string \<Rightarrow> string list \<Rightarrow> client" where
  "MCPClient m srcs =
     \<lparr>model_name = m, server_sources = srcs, sessions = [], tool_mapping = [], exit_stack = []\<rparr>"

section \<open>The outside world\<close>

text \<open>
  Everything the client calls and does not define: the tool providers, the model
  endpoint, the console and the library functions on strings and JSON. Each operation
  on the world \<open>'w\<close> returns its result, or the exception it raises, and the next world.
  \<open>'j\<close> is the type of JSON values, \<open>'c\<close> of a tool result's content.
\<close>

record ('w, 'j, 'c) env =
  enter_transport :: "'w \<Rightarrow> connector \<Rightarrow> string \<Rightarrow> (exn + nat) \<times> 'w"
  enter_session :: "'w \<Rightarrow> nat \<Rightarrow> (exn + nat) \<times> 'w"
  exit_cm :: "'w \<Rightarrow> resource \<Rightarrow> exn option \<Rightarrow> (exn + bool) \<times> 'w"
  initialize :: "'w \<Rightarrow> nat \<Rightarrow> (exn + unit) \<times> 'w"
  list_tools :: "'w \<Rightarrow> nat \<Rightarrow> (exn + 'j tool list) \<times> 'w"
  call_tool :: "'w \<Rightarrow> nat \<Rightarrow> string \<Rightarrow> 'j \<Rightarrow> (exn + 'c call_tool_result) \<times> 'w"
  create :: "'w \<Rightarrow> string \<Rightarrow> chat_message list \<Rightarrow> 'j tool_spec list \<Rightarrow> (exn + message list) \<times> 'w"
  input :: "'w \<Rightarrow> string \<Rightarrow> (exn + string) \<times> 'w"
  json_loads :: "string \<Rightarrow> string + 'j"
  json_dumps :: "'j \<Rightarrow> string"
  str_args :: "'j \<Rightarrow> string"
  str_content :: "'c \<Rightarrow> string"
  str_names :: "string list \<Rightarrow> string"
  py_strip :: "string \<Rightarrow> string"
  py_lower :: "string \<Rightarrow> string"

text \<open>The calls the client makes, in order: the observable behaviour of a run.\<close>

datatype ('j, 'c) event =
    Acquired resource
  | Released resource
  | Initialize nat
  | ListTools nat
  | CallTool nat string 'j
  | Create "chat_message list" "'j tool_spec list"
  | Input
  | Print string

record ('w, 'j, 'c) sys =
  world :: 'w
  trace :: "('j, 'c) event list"

definition emit :: "('j, 'c) event \<Rightarrow> ('w, 'j, 'c) sys \<Rightarrow> ('w, 'j, 'c) sys" where
  "emit e s = s\<lparr>trace := trace s @ [e]\<rparr>"

definition do_print :: "string \<Rightarrow> ('w, 'j, 'c) sys \<Rightarrow> ('w, 'j, 'c) sys" where
  "do_print x s = emit (Print x) s"

definition do_list_tools ::
  "('w, 'j, 'c) env \<Rightarrow> ('w, 'j, 'c) sys \<Rightarrow> nat \<Rightarrow> (exn + 'j tool list) \<times> ('w, 'j, 'c) sys" where
  "do_list_tools env s session =
     (case list_tools env (world s) session of
        (r, w') \<Rightarrow> (r, emit (ListTools session) (s\<lparr>world := w'\<rparr>)))"

definition do_call_tool ::
  "('w, 'j, 'c) env \<Rightarrow> ('w, 'j, 'c) sys \<Rightarrow> nat \<Rightarrow> string \<Rightarrow> 'j \<Rightarrow>
     (exn + 'c call_tool_result) \<times> ('w, 'j, 'c) sys" where
  "do_call_tool env s session nm args =
     (case call_tool env (world s) session nm args of
        (r, w') \<Rightarrow> (r, emit (CallTool session nm args) (s\<lparr>world := w'\<rparr>)))"

definition do_create ::
  "('w, 'j, 'c) env \<Rightarrow> ('w, 'j, 'c) sys \<Rightarrow> string \<Rightarrow> chat_message list \<Rightarrow> 'j tool_spec list \<Rightarrow>
     (exn + message list) \<times> ('w, 'j, 'c) sys" where
  "do_create env s model msgs tools =
     (case create env (world s) model msgs tools of
        (r, w') \<Rightarrow> (r, emit (Create msgs tools) (s\<lparr>world := w'\<rparr>)))"

section \<open>process_query (client.py:104-173)\<close>

text \<open>The local variables \<open>messages\<close> and \<open>final_text\<close>.\<close>

record locals =
  messages :: "chat_message list"
  final_text :: "string list"

definition prefixed :: "string \<Rightarrow> string \<Rightarrow> string" where
  "prefixed server_id nm = server_id @ ''_'' @ nm"

definition tool_spec_of :: "string \<Rightarrow> 'j tool \<Rightarrow> 'j tool_spec" where
  "tool_spec_of server_id t =
     \<lparr>fn_name = prefixed server_id (name t), fn_description = description t,
      fn_parameters = inputSchema t\<rparr>"

text \<open>client.py:112-124: one \<open>list_tools\<close> per session, in the order of \<open>self.sessions\<close>.\<close>

fun collect_tools ::
  "('w, 'j, 'c) env \<Rightarrow> ('w, 'j, 'c) sys \<Rightarrow> (string \<times> nat) list \<Rightarrow> 'j tool_spec list \<Rightarrow>
     (exn + 'j tool_spec list) \<times> ('w, 'j, 'c) sys" where
  "collect_tools env s [] available_tools = (Inr available_tools, s)"
| "collect_tools env s ((server_id, session) # rest) available_tools =
     (case do_list_tools env s session of
        (Inl e, s1) \<Rightarrow> (Inl e, s1)
      | (Inr tools, s1) \<Rightarrow>
          collect_tools env s1 rest (available_tools @ map (tool_spec_of server_id) tools))"

text \<open>
  client.py:126-132 and 165-170: the inference call and \<open>response.choices[0].message\<close>.
\<close>

definition request_message ::
  "('w, 'j, 'c) env \<Rightarrow> client \<Rightarrow> 'j tool_spec list \<Rightarrow> ('w, 'j, 'c) sys \<Rightarrow> chat_message list \<Rightarrow>
     (exn + message) \<times> ('w, 'j, 'c) sys" where
  "request_message env c available_tools s msgs =
     (case do_create env s (model_name c) msgs available_tools of
        (Inl e, s1) \<Rightarrow> (Inl e, s1)
      | (Inr [], s1) \<Rightarrow> (Inl IndexError, s1)
      | (Inr (m # _), s1) \<Rightarrow> (Inr m, s1))"

text \<open>client.py:147-160: what follows the \<open>try\<close> block of a resolved call.\<close>

definition record_result ::
  "('w, 'j, 'c) env \<Rightarrow> ('w, 'j, 'c) sys \<Rightarrow> locals \<Rightarrow> tool_call \<Rightarrow> 'j \<Rightarrow> 'c result_obj \<Rightarrow>
     (exn + locals) \<times> ('w, 'j, 'c) sys" where
  "record_result env s l tc tool_args result =
     (let ft = final_text l @
                 [txt_annot_a @ tc_name tc @ txt_annot_b @ str_args env tool_args @ '']'']
      in case attr_content result of
           Inl e \<Rightarrow> (Inl e, s)
         | Inr c \<Rightarrow>
             (Inr \<lparr>messages = messages l @
                     [AssistantToolCall (tc_id tc) (tc_name tc) (json_dumps env tool_args),
                      ToolMsg (tc_id tc) (str_content env c)],
                   final_text = ft @ [txt_result @ str_content env c]\<rparr>, s))"

text \<open>client.py:137-163: the body of the \<open>for\<close> loop, for one tool call.\<close>

definition process_tool_call ::
  "('w, 'j, 'c) env \<Rightarrow> client \<Rightarrow> ('w, 'j, 'c) sys \<Rightarrow> locals \<Rightarrow> tool_call \<Rightarrow>
     (exn + locals) \<times> ('w, 'j, 'c) sys" where
  "process_tool_call env c s l tc =
     (let prefixed_name = tc_name tc in
      case map_of (tool_mapping c) prefixed_name of
        Some (session, original_tool_name) \<Rightarrow>
          (case json_loads env (tc_arguments tc) of
             Inl m \<Rightarrow> (Inl (JSONDecodeError m), s)
           | Inr tool_args \<Rightarrow>
               (case do_call_tool env s session original_tool_name tool_args of
                  (Inr r, s1) \<Rightarrow> record_result env s1 l tc tool_args (ToolResult r)
                | (Inl e, s1) \<Rightarrow>
                    if is_Exception e then
                      let result = DictResult (txt_call_a @ original_tool_name @ txt_call_b @ str_exn e)
                      in record_result env (do_print (item_content result) s1) l tc tool_args result
                    else (Inl e, s1)))
      | None \<Rightarrow>
          (Inr (l\<lparr>final_text := final_text l @ [txt_tool @ prefixed_name @ txt_not_found]\<rparr>),
           do_print (txt_tool @ prefixed_name @ txt_not_found) s))"

text \<open>client.py:136: the \<open>for\<close> loop; an exception ends it.\<close>

fun process_tool_calls ::
  "('w, 'j, 'c) env \<Rightarrow> client \<Rightarrow> ('w, 'j, 'c) sys \<Rightarrow> locals \<Rightarrow> tool_call list \<Rightarrow>
     (exn + locals) \<times> ('w, 'j, 'c) sys" where
  "process_tool_calls env c s l [] = (Inr l, s)"
| "process_tool_calls env c s l (tc # tcs) =
     (case process_tool_call env c s l tc of
        (Inl e, s1) \<Rightarrow> (Inl e, s1)
      | (Inr l1, s1) \<Rightarrow> process_tool_calls env c s1 l1 tcs)"

text \<open>\<open>message.tool_calls\<close> as the \<open>while\<close> and the \<open>for\<close> read it: \<open>None\<close> and \<open>[]\<close> are false.\<close>

definition calls_of :: "message \<Rightarrow> tool_call list" where
  "calls_of m = (case tool_calls m of None \<Rightarrow> [] | Some tcs \<Rightarrow> tcs)"

text \<open>client.py:136-172: one pass through the body of the \<open>while\<close> loop.\<close>

definition loop_body ::
  "('w, 'j, 'c) env \<Rightarrow> client \<Rightarrow> 'j tool_spec list \<Rightarrow> ('w, 'j, 'c) sys \<Rightarrow> locals \<Rightarrow> message \<Rightarrow>
     (exn + message \<times> locals) \<times> ('w, 'j, 'c) sys" where
  "loop_body env c available_tools s l m =
     (case process_tool_calls env c s l (calls_of m) of
        (Inl e, s1) \<Rightarrow> (Inl e, s1)
      | (Inr l1, s1) \<Rightarrow>
          (case request_message env c available_tools s1 (messages l1) of
             (Inl e, s2) \<Rightarrow> (Inl e, s2)
           | (Inr m', s2) \<Rightarrow>
               (case content m' of
                  None \<Rightarrow> (Inr (m', l1), s2)
                | Some t \<Rightarrow>
                    if t = [] then (Inr (m', l1), s2)
                    else (Inr (m', l1\<lparr>final_text := final_text l1 @ [t]\<rparr>), s2))))"

text \<open>
  client.py:135-173: the \<open>while\<close> loop and the \<open>return\<close>. Nothing bounds the number of
  passes, so the loop is a partial function: \<open>None\<close> is a run that never returns.
\<close>

partial_function (option) tool_loop ::
  "('w, 'j, 'c) env \<Rightarrow> client \<Rightarrow> 'j tool_spec list \<Rightarrow> ('w, 'j, 'c) sys \<Rightarrow> locals \<Rightarrow> message \<Rightarrow>
     ((exn + string) \<times> ('w, 'j, 'c) sys) option" where
  "tool_loop env c available_tools s l m =
     (if calls_of m \<noteq> [] then
        (case loop_body env c available_tools s l m of
           (Inl e, s1) \<Rightarrow> Some (Inl e, s1)
         | (Inr (m', l1), s1) \<Rightarrow> tool_loop env c available_tools s1 l1 m')
      else Some (Inr (py_join [CHR 0x0A] (final_text l)), s))"

text \<open>client.py:104-173\<close>

definition process_query ::
  "('w, 'j, 'c) env \<Rightarrow> client \<Rightarrow> ('w, 'j, 'c) sys \<Rightarrow> string \<Rightarrow>
     ((exn + string) \<times> ('w, 'j, 'c) sys) option" where
  "process_query env c s query =
     (let msgs = [UserMsg query] in
      case collect_tools env s (sessions c) [] of
        (Inl e, s1) \<Rightarrow> Some (Inl e, s1)
      | (Inr available_tools, s1) \<Rightarrow>
          (case request_message env c available_tools s1 msgs of
             (Inl e, s2) \<Rightarrow> Some (Inl e, s2)
           | (Inr m, s2) \<Rightarrow>
               tool_loop env c available_tools s2
                 \<lparr>messages = msgs,
                  final_text = [case content m of None \<Rightarrow> [] | Some t \<Rightarrow> t]\<rparr> m))"

section \<open>Sessions and the exit stack (client.py:30-86)\<close>

text \<open>
  \<open>AsyncExitStack.enter_async_context(cm)\<close> awaits \<open>cm.__aenter__()\<close> and, when that
  returns, pushes \<open>cm.__aexit__\<close> and returns the result; when it raises, nothing is
  pushed. The head of \<open>exit_stack\<close> is the callback pushed last.
\<close>

definition enter_transport_cm ::
  "('w, 'j, 'c) env \<Rightarrow> connector \<Rightarrow> client \<Rightarrow> ('w, 'j, 'c) sys \<Rightarrow> string \<Rightarrow>
     (exn + nat) \<times> client \<times> ('w, 'j, 'c) sys" where
  "enter_transport_cm env k c s src =
     (case enter_transport env (world s) k src of
        (Inl e, w') \<Rightarrow> (Inl e, c, s\<lparr>world := w'\<rparr>)
      | (Inr h, w') \<Rightarrow>
          (Inr h, c\<lparr>exit_stack := Transport h # exit_stack c\<rparr>,
           emit (Acquired (Transport h)) (s\<lparr>world := w'\<rparr>)))"

definition enter_session_cm ::
  "('w, 'j, 'c) env \<Rightarrow> client \<Rightarrow> ('w, 'j, 'c) sys \<Rightarrow> nat \<Rightarrow>
     (exn + nat) \<times> client \<times> ('w, 'j, 'c) sys" where
  "enter_session_cm env c s tr =
     (case enter_session env (world s) tr of
        (Inl e, w') \<Rightarrow> (Inl e, c, s\<lparr>world := w'\<rparr>)
      | (Inr h, w') \<Rightarrow>
          (Inr h, c\<lparr>exit_stack := Session h # exit_stack c\<rparr>,
           emit (Acquired (Session h)) (s\<lparr>world := w'\<rparr>)))"

definition do_initialize ::
  "('w, 'j, 'c) env \<Rightarrow> ('w, 'j, 'c) sys \<Rightarrow> nat \<Rightarrow> (exn + unit) \<times> ('w, 'j, 'c) sys" where
  "do_initialize env s session =
     (case initialize env (world s) session of
        (r, w') \<Rightarrow> (r, emit (Initialize session) (s\<lparr>world := w'\<rparr>)))"

text \<open>client.py:51-53: the tools of one session enter \<open>tool_mapping\<close> by assignment.\<close>

fun register_tools ::
  "string \<Rightarrow> nat \<Rightarrow> 'j tool list \<Rightarrow> (string \<times> nat \<times> string) list \<Rightarrow>
     (string \<times> nat \<times> string) list" where
  "register_tools server_id session [] tm = tm"
| "register_tools server_id session (t # ts) tm =
     register_tools server_id session ts
       (dict_set (prefixed server_id (name t)) (session, name t) tm)"

text \<open>\<^verbatim>\<open>server_id = f"server{i}"\<close> (client.py:41, 62)\<close>

definition server_id_of :: "nat \<Rightarrow> string" where
  "server_id_of i = ''server'' @ str_nat i"

text \<open>client.py:36-54 (and 62-80): the body of the loop, for server \<open>i\<close>.\<close>

definition init_server ::
  "('w, 'j, 'c) env \<Rightarrow> connector \<Rightarrow> client \<Rightarrow> ('w, 'j, 'c) sys \<Rightarrow> nat \<Rightarrow> string \<Rightarrow>
     (exn + unit) \<times> client \<times> ('w, 'j, 'c) sys" where
  "init_server env k c s i server_source =
     (let server_id = server_id_of i in
      case enter_transport_cm env k c s server_source of
        (Inl e, c1, s1) \<Rightarrow> (Inl e, c1, s1)
      | (Inr tr, c1, s1) \<Rightarrow>
          (case enter_session_cm env c1 s1 tr of
             (Inl e, c2, s2) \<Rightarrow> (Inl e, c2, s2)
           | (Inr session, c2, s2) \<Rightarrow>
               (case do_initialize env s2 session of
                  (Inl e, s3) \<Rightarrow> (Inl e, c2, s3)
                | (Inr _, s3) \<Rightarrow>
                    (let c3 = c2\<lparr>sessions := dict_set server_id session (sessions c2)\<rparr> in
                     case do_list_tools env s3 session of
                       (Inl e, s4) \<Rightarrow> (Inl e, c3, s4)
                     | (Inr tools, s4) \<Rightarrow>
                         (Inr (),
                          c3\<lparr>tool_mapping :=
                               register_tools server_id session tools (tool_mapping c3)\<rparr>,
                          do_print (txt_connected_a @ server_id @ txt_connected_b @ '' '' @
                                    str_names env (map name tools)) s4)))))"

fun init_loop ::
  "('w, 'j, 'c) env \<Rightarrow> connector \<Rightarrow> client \<Rightarrow> ('w, 'j, 'c) sys \<Rightarrow> nat \<Rightarrow> string list \<Rightarrow>
     (exn + unit) \<times> client \<times> ('w, 'j, 'c) sys" where
  "init_loop env k c s i [] = (Inr (), c, s)"
| "init_loop env k c s i (server_source # rest) =
     (case init_server env k c s i server_source of
        (Inl e, c1, s1) \<Rightarrow> (Inl e, c1, s1)
      | (Inr _, c1, s1) \<Rightarrow> init_loop env k c1 s1 (Suc i) rest)"

definition initialize_sessions ::
  "('w, 'j, 'c) env \<Rightarrow> client \<Rightarrow> ('w, 'j, 'c) sys \<Rightarrow> (exn + unit) \<times> client \<times> ('w, 'j, 'c) sys" where
  "initialize_sessions env c s = init_loop env Stdio c s 0 (server_sources c)"

definition initialize_sessions_sse ::
  "('w, 'j, 'c) env \<Rightarrow> client \<Rightarrow> ('w, 'j, 'c) sys \<Rightarrow> (exn + unit) \<times> client \<times> ('w, 'j, 'c) sys" where
  "initialize_sessions_sse env c s = init_loop env Sse c s 0 (server_sources c)"

text \<open>
  \<open>AsyncExitStack.aclose()\<close>: the callbacks are popped and called last-in first-out,
  each with the exception pending at that moment. A callback that raises replaces the
  pending exception; one that returns a true value clears it; every callback is called,
  and what is pending at the end is raised. The stack is empty afterwards. (\<open>aclose\<close>
  starts with no exception, so \<open>exc\<close> is set exactly when \<open>pending_raise\<close> is.)
\<close>

fun unwind ::
  "('w, 'j, 'c) env \<Rightarrow> ('w, 'j, 'c) sys \<Rightarrow> resource list \<Rightarrow> exn option \<Rightarrow>
     exn option \<times> ('w, 'j, 'c) sys" where
  "unwind env s [] exc = (exc, s)"
| "unwind env s (r # rs) exc =
     (case exit_cm env (world s) r exc of
        (Inl new_exc, w') \<Rightarrow> unwind env (emit (Released r) (s\<lparr>world := w'\<rparr>)) rs (Some new_exc)
      | (Inr suppress, w') \<Rightarrow>
          unwind env (emit (Released r) (s\<lparr>world := w'\<rparr>)) rs (if suppress then None else exc))"

text \<open>client.py:82-86\<close>

definition cleanup ::
  "('w, 'j, 'c) env \<Rightarrow> client \<Rightarrow> ('w, 'j, 'c) sys \<Rightarrow> (exn + unit) \<times> client \<times> ('w, 'j, 'c) sys" where
  "cleanup env c s =
     (case unwind env s (exit_stack c) None of
        (None, s1) \<Rightarrow> (Inr (), c\<lparr>exit_stack := []\<rparr>, s1)
      | (Some e, s1) \<Rightarrow> (Inl e, c\<lparr>exit_stack := []\<rparr>, s1))"

section \<open>chat_loop and main (client.py:88-102, 176-199)\<close>

definition do_input ::
  "('w, 'j, 'c) env \<Rightarrow> ('w, 'j, 'c) sys \<Rightarrow> string \<Rightarrow> (exn + string) \<times> ('w, 'j, 'c) sys" where
  "do_input env s prompt =
     (case input env (world s) prompt of
        (r, w') \<Rightarrow> (r, emit Input (s\<lparr>world := w'\<rparr>)))"

text \<open>
  client.py:94-102: \<^verbatim>\<open>while True\<close> with \<^verbatim>\<open>except Exception\<close> around the body. Only
  \<open>quit\<close> or an exception that is not an \<open>Exception\<close> leaves the loop.
\<close>

partial_function (option) chat_while ::
  "('w, 'j, 'c) env \<Rightarrow> client \<Rightarrow> ('w, 'j, 'c) sys \<Rightarrow> ((exn + unit) \<times> ('w, 'j, 'c) sys) option" where
  "chat_while env c s =
     (case do_input env s txt_prompt of
        (Inl e, s1) \<Rightarrow>
          if is_Exception e then chat_while env c (do_print (txt_error @ str_exn e) s1)
          else Some (Inl e, s1)
      | (Inr line, s1) \<Rightarrow>
          (let query = py_strip env line in
           if py_lower env query = ''quit'' then Some (Inr (), s1)
           else Option.bind (process_query env c s1 query)
                  (\<lambda>r. case r of
                     (Inl e, s2) \<Rightarrow>
                       if is_Exception e then chat_while env c (do_print (txt_error @ str_exn e) s2)
                       else Some (Inl e, s2)
                   | (Inr response, s2) \<Rightarrow>
                       chat_while env c (do_print ([CHR 0x0A] @ response) s2))))"

definition chat_loop ::
  "('w, 'j, 'c) env \<Rightarrow> client \<Rightarrow> ('w, 'j, 'c) sys \<Rightarrow> ((exn + unit) \<times> ('w, 'j, 'c) sys) option" where
  "chat_loop env c s = chat_while env c (do_print txt_started s)"

text \<open>
  client.py:195-199: \<^verbatim>\<open>try: initialize_sessions; chat_loop  finally: cleanup\<close>. The
  \<open>finally\<close> block runs on every way out of the \<open>try\<close>; an exception it raises replaces
  the one in flight.
\<close>

definition finally_cleanup ::
  "('w, 'j, 'c) env \<Rightarrow> client \<Rightarrow> ('w, 'j, 'c) sys \<Rightarrow> exn + unit \<Rightarrow>
     (exn + unit) \<times> client \<times> ('w, 'j, 'c) sys" where
  "finally_cleanup env c s outcome =
     (case cleanup env c s of
        (Inl e, c1, s1) \<Rightarrow> (Inl e, c1, s1)
      | (Inr _, c1, s1) \<Rightarrow> (outcome, c1, s1))"

definition run_client ::
  "('w, 'j, 'c) env \<Rightarrow> client \<Rightarrow> ('w, 'j, 'c) sys \<Rightarrow>
     ((exn + unit) \<times> client \<times> ('w, 'j, 'c) sys) option" where
  "run_client env c s =
     (case initialize_sessions env c s of
        (Inl e, c1, s1) \<Rightarrow> Some (finally_cleanup env c1 s1 (Inl e))
      | (Inr _, c1, s1) \<Rightarrow>
          Option.bind (chat_loop env c1 s1)
            (\<lambda>(outcome, s2). Some (finally_cleanup env c1 s2 outcome)))"

definition txt_no_key :: string where
  "txt_no_key = [CHR 0xE6, CHR 0x9C, CHR 0xAA, CHR 0xE8, CHR 0xAE, CHR 0xBE, CHR 0xE7,
     CHR 0xBD, CHR 0xAE, CHR 0x20, CHR 0x41, CHR 0x50, CHR 0x49, CHR 0x5F, CHR 0x4B, CHR 0x45,
     CHR 0x59, CHR 0x20, CHR 0xE7, CHR 0x8E, CHR 0xAF, CHR 0xE5, CHR 0xA2, CHR 0x83, CHR 0xE5,
     CHR 0x8F, CHR 0x98, CHR 0xE9, CHR 0x87, CHR 0x8F, CHR 0xE3, CHR 0x80, CHR 0x82]"

text \<open>
  client.py:176-199. \<open>model_name\<close> and \<open>api_key\<close> are the values of the environment
  variables; \<open>sys.exit(1)\<close> raises \<open>SystemExit\<close>.
\<close>

definition main ::
  "('w, 'j, 'c) env \<Rightarrow> ('w, 'j, 'c) sys \<Rightarrow> string \<Rightarrow> string option \<Rightarrow>
     ((exn + unit) \<times> ('w, 'j, 'c) sys) option" where
  "main env s model api_key =
     (if api_key = None \<or> api_key = Some [] then
        Some (Inl (BaseError ''1''), do_print txt_no_key s)
      else
        Option.bind
          (run_client env
             (MCPClient model [''D:/ZQY/mcp-server-weather/mcp-server/amap_server.py'']) s)
          (\<lambda>(outcome, c1, s1). Some (outcome, s1)))"

section \<open>Observations on a trace\<close>

fun is_Create :: "('j, 'c) event \<Rightarrow> bool" where
  "is_Create (Create _ _) = True"
| "is_Create _ = False"

fun is_CallTool :: "('j, 'c) event \<Rightarrow> bool" where
  "is_CallTool (CallTool _ _ _) = True"
| "is_CallTool _ = False"

fun is_ListTools :: "('j, 'c) event \<Rightarrow> bool" where
  "is_ListTools (ListTools _) = True"
| "is_ListTools _ = False"

definition inference_calls :: "('j, 'c) event list \<Rightarrow> ('j, 'c) event list" where
  "inference_calls tr = filter is_Create tr"

definition tool_invocations :: "('j, 'c) event list \<Rightarrow> ('j, 'c) event list" where
  "tool_invocations tr = filter is_CallTool tr"

definition discoveries :: "('j, 'c) event list \<Rightarrow> ('j, 'c) event list" where
  "discoveries tr = filter is_ListTools tr"

fun acquired_of :: "('j, 'c) event \<Rightarrow> resource option" where
  "acquired_of (Acquired r) = Some r"
| "acquired_of _ = None"

fun released_of :: "('j, 'c) event \<Rightarrow> resource option" where
  "released_of (Released r) = Some r"
| "released_of _ = None"

definition acquisitions :: "('j, 'c) event list \<Rightarrow> resource list" where
  "acquisitions tr = List.map_filter acquired_of tr"

definition releases :: "('j, 'c) event list \<Rightarrow> resource list" where
  "releases tr = List.map_filter released_of tr"

section \<open>A test double of the outside world\<close>

text \<open>
  A world for running the client on concrete inputs: the world is a clock that every
  inference call, tool call and acquisition advances. \<open>model\<close> gives the choices the
  model answers with at a time, \<open>tools\<close> what a session advertises at a time, \<open>run\<close> what
  a tool does. JSON values and contents are strings; only \<open>{}\<close> parses.
\<close>

definition demo_loads :: "string \<Rightarrow> string + string" where
  "demo_loads a = (if a = ''{}'' then Inr a else Inl ''Expecting value'')"

definition demo_env ::
  "(nat \<Rightarrow> message list) \<Rightarrow> (nat \<Rightarrow> nat \<Rightarrow> string tool list) \<Rightarrow>
   (string \<Rightarrow> exn + string call_tool_result) \<Rightarrow> (nat, string, string) env" where
  "demo_env model tools run =
     \<lparr>enter_transport = (\<lambda>w k src.
         if src = ''bad'' then (Inl (Error ''spawn failed''), w) else (Inr w, Suc w)),
      enter_session = (\<lambda>w tr. (Inr w, Suc w)),
      exit_cm = (\<lambda>w r exc. (Inr False, w)),
      initialize = (\<lambda>w session. (Inr (), w)),
      list_tools = (\<lambda>w session. (Inr (tools w session), w)),
      call_tool = (\<lambda>w session nm args. (run nm, Suc w)),
      create = (\<lambda>w model_id msgs ts. (Inr (model w), Suc w)),
      input = (\<lambda>w prompt. (Inr ''quit'', w)),
      json_loads = demo_loads,
      json_dumps = (\<lambda>a. a),
      str_args = (\<lambda>a. a),
      str_content = (\<lambda>a. a),
      str_names = concat,
      py_strip = (\<lambda>a. a),
      py_lower = (\<lambda>a. a)\<rparr>"

definition start :: "(nat, string, string) sys" where
  "start = \<lparr>world = 0, trace = []\<rparr>"

definition says :: "string \<Rightarrow> message" where
  "says t = \<lparr>content = Some t, tool_calls = None\<rparr>"

definition asks :: "tool_call list \<Rightarrow> message" where
  "asks tcs = \<lparr>content = None, tool_calls = Some tcs\<rparr>"

definition request :: "string \<Rightarrow> string \<Rightarrow> string \<Rightarrow> tool_call" where
  "request i nm args = \<lparr>tc_id = i, tc_name = nm, tc_arguments = args\<rparr>"

definition weather_tool :: "string tool" where
  "weather_tool = \<lparr>name = ''get_weather'', description = ''weather'', inputSchema = ''{}''\<rparr>"

definition ok_run :: "string \<Rightarrow> exn + string call_tool_result" where
  "ok_run nm = Inr \<lparr>result_content = ''sunny'', isError = False\<rparr>"

text \<open>A client connected to one server, session 1, that advertised \<open>get_weather\<close>.\<close>

definition one_server :: client where
  "one_server =
     \<lparr>model_name = ''m'', server_sources = [''a.py''], sessions = [(''server0'', 1)],
      tool_mapping = [(''server0_get_weather'', 1, ''get_weather'')],
      exit_stack = [Session 1, Transport 0]\<rparr>"

section \<open>Expected records of a tool call\<close>

text \<open>The line the transcript gets for a request that does not resolve (client.py:163).\<close>

definition not_found_note :: "tool_call \<Rightarrow> string" where
  "not_found_note tc = txt_tool @ tc_name tc @ txt_not_found"

text \<open>
  The \<open>call_tool\<close> invocation a request stands for: the session and the original name
  it resolves to, with its parsed arguments (none when it does not resolve or parse).
\<close>

definition invocation :: "('w, 'j, 'c) env \<Rightarrow> client \<Rightarrow> tool_call \<Rightarrow> ('j, 'c) event list" where
  "invocation env c tc =
     (case map_of (tool_mapping c) (tc_name tc) of
        None \<Rightarrow> []
      | Some (session, original_tool_name) \<Rightarrow>
          (case json_loads env (tc_arguments tc) of
             Inl _ \<Rightarrow> []
           | Inr tool_args \<Rightarrow> [CallTool session original_tool_name tool_args]))"

text \<open>
  The two messages of client.py:150-160 for a request and the result \<open>r\<close> of its call:
  the assistant's record of the call and the tool's record of the result.
\<close>

definition exchange :: "('w, 'j, 'c) env \<Rightarrow> tool_call \<Rightarrow> 'c call_tool_result \<Rightarrow> chat_message list" where
  "exchange env tc r =
     (case json_loads env (tc_arguments tc) of
        Inl _ \<Rightarrow> []
      | Inr tool_args \<Rightarrow>
          [AssistantToolCall (tc_id tc) (tc_name tc) (json_dumps env tool_args),
           ToolMsg (tc_id tc) (str_content env (result_content r))])"

text \<open>
  What \<open>call_tool\<close> returns for the requests of one response, in the order received,
  when the first call is made in world \<open>w\<close> and each later one in the world the call
  before it left. A request that does not resolve makes no call; the list ends at the
  first request whose arguments do not parse or whose call raises.
\<close>

fun returned ::
  "('w, 'j, 'c) env \<Rightarrow> client \<Rightarrow> 'w \<Rightarrow> tool_call list \<Rightarrow> 'c call_tool_result list" where
  "returned env c w [] = []"
| "returned env c w (tc # tcs) =
     (case map_of (tool_mapping c) (tc_name tc) of
        None \<Rightarrow> returned env c w tcs
      | Some (session, original_tool_name) \<Rightarrow>
          (case json_loads env (tc_arguments tc) of
             Inl _ \<Rightarrow> []
           | Inr tool_args \<Rightarrow>
               (case call_tool env w session original_tool_name tool_args of
                  (Inl e, w') \<Rightarrow> []
                | (Inr r, w') \<Rightarrow> r # returned env c w' tcs)))"

section \<open>Concrete runs\<close>

text \<open>A model that answers \<open>first\<close> at time 0 and \<open>afterwards\<close> from then on.\<close>

definition scripted :: "message \<Rightarrow> message \<Rightarrow> nat \<Rightarrow> message list" where
  "scripted first afterwards w = (if w = 0 then [first] else [afterwards])"

definition weather_call :: "string \<Rightarrow> tool_call" where
  "weather_call i = request i ''server0_get_weather'' ''{}''"

definition boom_run :: "string \<Rightarrow> exn + string call_tool_result" where
  "boom_run nm = Inl (Error ''boom'')"

definition user_locals :: locals where
  "user_locals = \<lparr>messages = [UserMsg ''hi''], final_text = ['''']\<rparr>"

definition catalog1 :: "string tool_spec list" where
  "catalog1 = [\<lparr>fn_name = ''server0_get_weather'', fn_description = ''weather'',
                fn_parameters = ''{}''\<rparr>]"

lemmas demo_defs = demo_env_def one_server_def start_def says_def asks_def request_def
  weather_call_def calls_of_def scripted_def user_locals_def catalog1_def weather_tool_def
  ok_run_def boom_run_def demo_loads_def

lemmas run_defs = process_query_def request_message_def do_create_def do_list_tools_def
  do_call_tool_def do_print_def emit_def loop_body_def process_tool_call_def record_result_def
  tool_spec_of_def prefixed_def Let_def

section \<open>Events of the query loop\<close>

text \<open>
  The events a pass of the loop may add to the trace when the catalog in use is \<open>tools\<close>:
  tool calls, prints, and inference calls that carry \<open>tools\<close>.
\<close>

fun is_Print :: "('j, 'c) event \<Rightarrow> bool" where
  "is_Print (Print _) = True"
| "is_Print _ = False"

fun loop_event :: "'j tool_spec list \<Rightarrow> ('j, 'c) event \<Rightarrow> bool" where
  "loop_event tools (CallTool _ _ _) = True"
| "loop_event tools (Print _) = True"
| "loop_event tools (Create _ ts) = (ts = tools)"
| "loop_event tools _ = False"

fun catalog_of :: "('j, 'c) event \<Rightarrow> 'j tool_spec list option" where
  "catalog_of (Create _ ts) = Some ts"
| "catalog_of _ = None"

definition catalogs :: "('j, 'c) event list \<Rightarrow> 'j tool_spec list list" where
  "catalogs tr = List.map_filter catalog_of tr"

text \<open>
  Two more worlds: a model that requests an unregistered tool in every response, and a
  provider that withdraws its tool once the first tool call has been made.
\<close>

definition nagging :: "nat \<Rightarrow> message list" where
  "nagging w = [asks [request ''1'' ''nope'' ''{}'']]"

definition nagging_env :: "(nat, string, string) env" where
  "nagging_env = demo_env nagging (\<lambda>w h. [weather_tool]) ok_run"

definition fading_env :: "(nat, string, string) env" where
  "fading_env = demo_env (scripted (asks [weather_call ''1'']) (says ''done''))
     (\<lambda>w h. if w < 2 then [weather_tool] else []) ok_run"

definition fading_end :: "(nat, string, string) sys" where
  "fading_end =
     \<lparr>world = 3,
      trace = [ListTools 1, Create [UserMsg ''hi''] catalog1, CallTool 1 ''get_weather'' ''{}'',
               Create [UserMsg ''hi'', AssistantToolCall ''1'' ''server0_get_weather'' ''{}'',
                       ToolMsg ''1'' ''sunny''] catalog1]\<rparr>"

section \<open>The tool namespace\<close>

text \<open>The entries one session's tools stand for in \<open>tool_mapping\<close>, in the order advertised.\<close>

definition entries :: "string \<Rightarrow> nat \<Rightarrow> 'j tool list \<Rightarrow> (string \<times> nat \<times> string) list" where
  "entries server_id session tools =
     map (\<lambda>t. (prefixed server_id (name t), (session, name t))) tools"

text \<open>
  The namespace of servers \<open>i, i + 1, ...\<close> given, per server, its session and the tools
  it advertised.
\<close>

definition namespace_from :: "nat \<Rightarrow> (nat \<times> 'j tool list) list \<Rightarrow> (string \<times> nat \<times> string) list" where
  "namespace_from i blocks =
     concat (map (\<lambda>(j, session, tools). entries (server_id_of j) session tools)
               (enumerate i blocks))"

definition sessions_from :: "nat \<Rightarrow> (nat \<times> 'j tool list) list \<Rightarrow> (string \<times> nat) list" where
  "sessions_from i blocks =
     map (\<lambda>(j, session, tools). (server_id_of j, session)) (enumerate i blocks)"

text \<open>Every key is the prefixed name of a server below \<open>i\<close>.\<close>

definition keys_below :: "nat \<Rightarrow> (string \<times> 'v) list \<Rightarrow> bool" where
  "keys_below i tm = (\<forall>k \<in> fst ` set tm. \<exists>j < i. \<exists>n. k = prefixed (server_id_of j) n)"

text \<open>Every key is the id of a server below \<open>i\<close>.\<close>

definition ids_below :: "nat \<Rightarrow> (string \<times> 'v) list \<Rightarrow> bool" where
  "ids_below i ss = (\<forall>k \<in> fst ` set ss. \<exists>j < i. k = server_id_of j)"

text \<open>Two servers that both advertise \<open>get_weather\<close>.\<close>

definition twin_env :: "(nat, string, string) env" where
  "twin_env = demo_env (\<lambda>w. [says ''done'']) (\<lambda>w h. [weather_tool]) ok_run"

text \<open>The client and the trace after both servers have been initialised.\<close>

definition twins :: client where
  "twins =
     \<lparr>model_name = ''m'', server_sources = [''a.py'', ''b.py''],
      sessions = [(''server0'', 1), (''server1'', 3)],
      tool_mapping = [(''server0_get_weather'', 1, ''get_weather''),
                      (''server1_get_weather'', 3, ''get_weather'')],
      exit_stack = [Session 3, Transport 2, Session 1, Transport 0]\<rparr>"

definition twins_end :: "(nat, string, string) sys" where
  "twins_end =
     \<lparr>world = 4,
      trace = [Acquired (Transport 0), Acquired (Session 1), Initialize 1, ListTools 1,
               Print (txt_connected_a @ ''server0'' @ txt_connected_b @ '' get_weather''),
               Acquired (Transport 2), Acquired (Session 3), Initialize 3, ListTools 3,
               Print (txt_connected_a @ ''server1'' @ txt_connected_b @ '' get_weather'')]\<rparr>"

text \<open>
  \<open>one_server\<close> after a second \<open>initialize_sessions\<close> at time 5, and a second tool of
  the same name as \<open>weather_tool\<close>.
\<close>

definition rejoined :: client where
  "rejoined =
     \<lparr>model_name = ''m'', server_sources = [''a.py''], sessions = [(''server0'', 6)],
      tool_mapping = [(''server0_get_weather'', 6, ''get_weather'')],
      exit_stack = [Session 6, Transport 5, Session 1, Transport 0]\<rparr>"

definition echo_tool :: "string tool" where
  "echo_tool = \<lparr>name = ''get_weather'', description = ''another'', inputSchema = ''{}''\<rparr>"

text \<open>One server that advertises both.\<close>

definition echo_env :: "(nat, string, string) env" where
  "echo_env = demo_env (\<lambda>w. [says ''done'']) (\<lambda>w h. [weather_tool, echo_tool]) ok_run"



section \<open>Basic facts\<close>

lemma trace_emit [simp]: "trace (emit e s) = trace s @ [e]"
  by (simp add: emit_def)

lemma world_emit [simp]: "world (emit e s) = world s"
  by (simp add: emit_def)

lemma collect_tools_inference:
  "collect_tools env s ss acc = (r, s1) \<Longrightarrow> inference_calls (trace s1) = inference_calls (trace s)"
  by (induction ss arbitrary: s acc)
     (auto simp: do_list_tools_def inference_calls_def split: prod.splits sum.splits)

section \<open>The query loop\<close>

text \<open>
  C7. When the catalog has been collected and the model's first response carries no tool
  call (\<open>tool_calls\<close> is \<open>None\<close> or empty), \<open>process_query\<close> returns the response's
  content (the empty string for \<open>None\<close>), and the inference calls of the run are that
  one call.
\<close>

theorem process_query_no_tool_calls:
  assumes "collect_tools env s (sessions c) [] = (Inr tools, s1)"
    and "create env (world s1) (model_name c) [UserMsg query] tools = (Inr (m # ms), w2)"
    and "calls_of m = []"
  shows "process_query env c s query =
           Some (Inr (case content m of None \<Rightarrow> [] | Some t \<Rightarrow> t),
                 emit (Create [UserMsg query] tools) (s1\<lparr>world := w2\<rparr>)) \<and>
         inference_calls (trace (emit (Create [UserMsg query] tools) (s1\<lparr>world := w2\<rparr>))) =
           inference_calls (trace s) @ [Create [UserMsg query] tools]"
  using assms collect_tools_inference[OF assms(1)]
  by (simp add: process_query_def request_message_def do_create_def tool_loop.simps
        inference_calls_def)

theorem process_query_no_tool_calls_witness:
  "process_query (demo_env (\<lambda>w. [says ''hello'']) (\<lambda>w h. [weather_tool]) ok_run)
       one_server start ''hi'' =
     Some (Inr ''hello'',
       \<lparr>world = 1,
        trace = [ListTools 1,
          Create [UserMsg ''hi'']
            [\<lparr>fn_name = ''server0_get_weather'', fn_description = ''weather'',
              fn_parameters = ''{}''\<rparr>]]\<rparr>)"
  using process_query_no_tool_calls[of
      "demo_env (\<lambda>w. [says ''hello'']) (\<lambda>w h. [weather_tool]) ok_run" start one_server
      "[\<lparr>fn_name = ''server0_get_weather'', fn_description = ''weather'',
         fn_parameters = ''{}''\<rparr>]"
      "emit (ListTools 1) start" "''hi''" "says ''hello''" "[]" 1]
  by (simp add: demo_env_def one_server_def start_def says_def calls_of_def do_list_tools_def
        tool_spec_of_def prefixed_def weather_tool_def inference_calls_def emit_def)

lemma process_tool_calls_append:
  "process_tool_calls env c s l (pre @ post) =
     (case process_tool_calls env c s l pre of
        (Inl e, s1) \<Rightarrow> (Inl e, s1)
      | (Inr l1, s1) \<Rightarrow> process_tool_calls env c s1 l1 post)"
  by (induction pre arbitrary: s l) (auto split: prod.splits sum.splits)

text \<open>
  C10. A request that resolves in \<open>tool_mapping\<close> and whose argument string
  \<open>json.loads\<close> rejects: the call raises \<open>JSONDecodeError\<close> before any \<open>call_tool\<close>, the
  state is the one before the request (no invocation, no message, no transcript line),
  and the loop of \<open>process_query\<close> ends with that exception, in whatever pass and
  after whatever requests \<open>pre\<close> of the same response the request comes.
\<close>

theorem malformed_arguments_propagate:
  assumes "map_of (tool_mapping c) (tc_name tc) = Some (session, original_tool_name)"
    and "json_loads env (tc_arguments tc) = Inl err"
    and "calls_of m = pre @ tc # rest"
    and "process_tool_calls env c s0 l0 pre = (Inr l, s)"
  shows "process_tool_call env c s l tc = (Inl (JSONDecodeError err), s) \<and>
         tool_loop env c available_tools s0 l0 m = Some (Inl (JSONDecodeError err), s)"
proof -
  have one: "process_tool_call env c s l tc = (Inl (JSONDecodeError err), s)"
    using assms(1,2) by (simp add: process_tool_call_def)
  have "process_tool_calls env c s0 l0 (calls_of m) = (Inl (JSONDecodeError err), s)"
    using assms(3,4) one by (simp add: process_tool_calls_append)
  then have "loop_body env c available_tools s0 l0 m = (Inl (JSONDecodeError err), s)"
    by (simp add: loop_body_def)
  moreover have "calls_of m \<noteq> []" using assms(3) by simp
  ultimately have "tool_loop env c available_tools s0 l0 m = Some (Inl (JSONDecodeError err), s)"
    by (subst tool_loop.simps) simp
  with one show ?thesis by simp
qed

theorem malformed_arguments_propagate_witness:
  "process_query (demo_env (scripted (asks [request ''1'' ''server0_get_weather'' ''oops''])
       (says ''done'')) (\<lambda>w h. [weather_tool]) ok_run) one_server start ''hi'' =
     Some (Inl (JSONDecodeError ''Expecting value''),
       \<lparr>world = 1, trace = [ListTools 1, Create [UserMsg ''hi''] catalog1]\<rparr>)"
  using malformed_arguments_propagate[where c = one_server
      and tc = "request ''1'' ''server0_get_weather'' ''oops''" and session = 1
      and original_tool_name = "''get_weather''"
      and env = "demo_env (scripted (asks [request ''1'' ''server0_get_weather'' ''oops''])
         (says ''done'')) (\<lambda>w h. [weather_tool]) ok_run"
      and err = "''Expecting value''"
      and m = "asks [request ''1'' ''server0_get_weather'' ''oops'']"
      and pre = "[]" and rest = "[]"
      and s0 = "\<lparr>world = 1, trace = [ListTools 1, Create [UserMsg ''hi''] catalog1]\<rparr>"
      and s = "\<lparr>world = 1, trace = [ListTools 1, Create [UserMsg ''hi''] catalog1]\<rparr>"
      and l0 = user_locals and l = user_locals and available_tools = catalog1]
  by (simp add: demo_defs run_defs)

text \<open>
  C1, at a failing tool. The model requests \<open>server0_get_weather\<close>, and \<open>call_tool\<close>
  raises \<open>Error boom\<close>. The \<open>except\<close> branch builds a \<open>dict\<close> and prints its text; the
  next read of \<open>result.content\<close> (client.py:148) raises \<open>AttributeError\<close>, which leaves
  \<open>process_query\<close>: no tool message is appended and no further inference call is made.
\<close>

theorem failing_tool_raises_out_of_process_query:
  "process_query (demo_env (scripted (asks [weather_call ''1'']) (says ''done''))
       (\<lambda>w h. [weather_tool]) boom_run) one_server start ''hi'' =
     Some (Inl AttributeError,
       \<lparr>world = 2,
        trace = [ListTools 1, Create [UserMsg ''hi''] catalog1,
                 CallTool 1 ''get_weather'' ''{}'',
                 Print (txt_call_a @ ''get_weather'' @ txt_call_b @ ''boom'')]\<rparr>)"
  by (simp add: demo_defs run_defs tool_loop.simps)

text \<open>
  C3, as stated, fails: for a request whose name is not in \<open>tool_mapping\<close> the note goes
  to \<open>final_text\<close> and to the console, and \<open>messages\<close> still holds the user message only.
\<close>

theorem unresolved_call_counterexample:
  "process_tool_call (demo_env (\<lambda>w. [says ''done'']) (\<lambda>w h. [weather_tool]) ok_run)
       one_server start user_locals (request ''1'' ''nope'' ''{}'') =
     (Inr \<lparr>messages = [UserMsg ''hi''],
           final_text = ['''', txt_tool @ ''nope'' @ txt_not_found]\<rparr>,
      \<lparr>world = 0, trace = [Print (txt_tool @ ''nope'' @ txt_not_found)]\<rparr>)"
  by (simp add: demo_defs run_defs)

text \<open>
  C3, amended. For a request whose name is not in \<open>tool_mapping\<close>: no \<open>call_tool\<close> is
  invoked (the only event is the printed note, the world is untouched), the note is
  appended to the transcript \<open>final_text\<close>, \<open>messages\<close> is unchanged, and the loop goes
  on with the next request.
\<close>

theorem unresolved_call_noted_in_transcript_only:
  assumes "map_of (tool_mapping c) (tc_name tc) = None"
  shows "process_tool_call env c s l tc =
           (Inr (l\<lparr>final_text := final_text l @ [not_found_note tc]\<rparr>),
            s\<lparr>trace := trace s @ [Print (not_found_note tc)]\<rparr>) \<and>
         messages (l\<lparr>final_text := final_text l @ [not_found_note tc]\<rparr>) = messages l \<and>
         process_tool_calls env c s l (tc # rest) =
           process_tool_calls env c (s\<lparr>trace := trace s @ [Print (not_found_note tc)]\<rparr>)
             (l\<lparr>final_text := final_text l @ [not_found_note tc]\<rparr>) rest"
  using assms
  by (simp add: process_tool_call_def not_found_note_def do_print_def emit_def Let_def)

theorem unresolved_call_noted_in_transcript_only_witness:
  "process_tool_calls (demo_env (\<lambda>w. [says ''done'']) (\<lambda>w h. [weather_tool]) ok_run)
       one_server start user_locals [request ''1'' ''nope'' ''{}'', weather_call ''2''] =
     (Inr \<lparr>messages = [UserMsg ''hi'',
             AssistantToolCall ''2'' ''server0_get_weather'' ''{}'', ToolMsg ''2'' ''sunny''],
           final_text = ['''', txt_tool @ ''nope'' @ txt_not_found,
             txt_annot_a @ ''server0_get_weather'' @ txt_annot_b @ ''{}]'',
             txt_result @ ''sunny'']\<rparr>,
      \<lparr>world = 1,
       trace = [Print (txt_tool @ ''nope'' @ txt_not_found), CallTool 1 ''get_weather'' ''{}'']\<rparr>)"
  using unresolved_call_noted_in_transcript_only[of one_server "request ''1'' ''nope'' ''{}''"
      "demo_env (\<lambda>w. [says ''done'']) (\<lambda>w h. [weather_tool]) ok_run" start user_locals
      "[weather_call ''2'']"]
  by (simp add: demo_defs run_defs not_found_note_def)

text \<open>A resolved request whose \<open>call_tool\<close> returns: what the pass over it leaves.\<close>

lemma process_tool_call_returns:
  assumes "map_of (tool_mapping c) (tc_name tc) = Some (session, orig)"
    and "process_tool_call env c s l tc = (Inr l', s')"
  shows "\<exists>a r w'. json_loads env (tc_arguments tc) = Inr a \<and>
           call_tool env (world s) session orig a = (Inr r, w') \<and>
           s' = \<lparr>world = w', trace = trace s @ [CallTool session orig a]\<rparr> \<and>
           l' = \<lparr>messages = messages l @
                   [AssistantToolCall (tc_id tc) (tc_name tc) (json_dumps env a),
                    ToolMsg (tc_id tc) (str_content env (result_content r))],
                 final_text = final_text l @
                   [txt_annot_a @ tc_name tc @ txt_annot_b @ str_args env a @ '']'',
                    txt_result @ str_content env (result_content r)]\<rparr>"
  using assms
  by (auto simp: process_tool_call_def do_call_tool_def record_result_def emit_def do_print_def Let_def
           split: sum.splits prod.splits if_splits)

lemma process_tool_calls_resolved:
  fixes env :: "('w, 'j, 'c) env"
  assumes "\<forall>tc\<in>set tcs. map_of (tool_mapping c) (tc_name tc) \<noteq> None"
    and "process_tool_calls env c s l tcs = (Inr l', s')"
  shows "length (returned env c (world s) tcs) = length tcs \<and>
         messages l' =
           messages l @ concat (map2 (exchange env) tcs (returned env c (world s) tcs)) \<and>
         trace s' = trace s @ concat (map (invocation env c) tcs) \<and>
         (\<forall>tc\<in>set tcs. \<exists>a. json_loads env (tc_arguments tc) = Inr a)"
  using assms
proof (induction tcs arbitrary: s l)
  case Nil
  then show ?case by simp
next
  case (Cons tc tcs)
  from Cons.prems(1) obtain session orig
    where res: "map_of (tool_mapping c) (tc_name tc) = Some (session, orig)" by auto
  from Cons.prems(2) obtain l1 s1
    where one: "process_tool_call env c s l tc = (Inr l1, s1)"
      and more: "process_tool_calls env c s1 l1 tcs = (Inr l', s')"
    by (auto split: prod.splits sum.splits)
  from process_tool_call_returns[OF res one] obtain a and r :: "'c call_tool_result" and w'
    where a: "json_loads env (tc_arguments tc) = Inr a"
      and call: "call_tool env (world s) session orig a = (Inr r, w')"
      and s1': "s1 = \<lparr>world = w', trace = trace s @ [CallTool session orig a]\<rparr>"
      and l1': "l1 = \<lparr>messages = messages l @
                   [AssistantToolCall (tc_id tc) (tc_name tc) (json_dumps env a),
                    ToolMsg (tc_id tc) (str_content env (result_content r))],
                 final_text = final_text l @
                   [txt_annot_a @ tc_name tc @ txt_annot_b @ str_args env a @ '']'',
                    txt_result @ str_content env (result_content r)]\<rparr>"
    by blast
  have s1: "trace s1 = trace s @ [CallTool session orig a]" by (simp add: s1')
  have w1: "world s1 = w'" by (simp add: s1')
  have l1: "messages l1 = messages l @
                 [AssistantToolCall (tc_id tc) (tc_name tc) (json_dumps env a),
                  ToolMsg (tc_id tc) (str_content env (result_content r))]"
    by (simp add: l1')
  have ret: "returned env c (world s) (tc # tcs) = r # returned env c (world s1) tcs"
    using res a call w1 by simp
  from Cons.prems(1) have "\<forall>tc\<in>set tcs. map_of (tool_mapping c) (tc_name tc) \<noteq> None" by simp
  from Cons.IH[OF this more]
  have ih: "length (returned env c (world s1) tcs) = length tcs"
      "messages l' =
         messages l1 @ concat (map2 (exchange env) tcs (returned env c (world s1) tcs))"
      "trace s' = trace s1 @ concat (map (invocation env c) tcs)"
      "\<forall>tc\<in>set tcs. \<exists>a. json_loads env (tc_arguments tc) = Inr a"
    by blast+
  have inv: "invocation env c tc = [CallTool session orig a]"
    using res a by (simp add: invocation_def)
  have exc: "exchange env tc r =
               [AssistantToolCall (tc_id tc) (tc_name tc) (json_dumps env a),
                ToolMsg (tc_id tc) (str_content env (result_content r))]"
    using a by (simp add: exchange_def)
  show ?case
    unfolding ret using ih a s1 l1 inv exc by simp
qed

lemma CallTool_not_Create: "is_CallTool e \<Longrightarrow> \<not> is_Create e"
  by (cases e) simp_all

lemma length_concat_exchange:
  "length results = length tcs \<Longrightarrow> \<forall>tc\<in>set tcs. \<exists>a. json_loads env (tc_arguments tc) = Inr a \<Longrightarrow>
   length (concat (map2 (exchange env) tcs results)) = 2 * length tcs"
  by (induction tcs results rule: list_induct2') (auto simp: exchange_def)

lemma length_concat_invocation:
  "\<forall>tc\<in>set tcs. map_of (tool_mapping c) (tc_name tc) \<noteq> None \<Longrightarrow>
   \<forall>tc\<in>set tcs. \<exists>a. json_loads env (tc_arguments tc) = Inr a \<Longrightarrow>
   length (concat (map (invocation env c) tcs)) = length tcs \<and>
   list_all is_CallTool (concat (map (invocation env c) tcs))"
  by (induction tcs) (auto simp: invocation_def)

text \<open>
  C6, as stated, fails: a response with one request that resolves, whose argument string
  does not parse. No \<open>call_tool\<close> is invoked, \<open>messages\<close> does not grow and no next
  inference call is made: the pass ends with \<open>JSONDecodeError\<close> in the state it began in.
\<close>

theorem resolved_calls_counterexample:
  "map_of (tool_mapping one_server) (tc_name (request ''1'' ''server0_get_weather'' ''oops'')) =
     Some (1, ''get_weather'') \<and>
   loop_body (demo_env (\<lambda>w. [says ''done'']) (\<lambda>w h. [weather_tool]) ok_run)
       one_server catalog1 start user_locals
       (asks [request ''1'' ''server0_get_weather'' ''oops'']) =
     (Inl (JSONDecodeError ''Expecting value''), start)"
  by (simp add: demo_defs run_defs)

text \<open>
  C6, amended. For a response whose \<open>k\<close> requests all resolve and whose \<open>for\<close> loop
  raises nothing (every argument string parses, every \<open>call_tool\<close> returns): the
  \<open>call_tool\<close> invocations of the pass are exactly the \<open>k\<close> the requests stand for, in the
  order received; no inference call happens among them; \<open>messages\<close> grows by \<open>2k\<close>, per
  request the assistant's record of the call (name and re-serialised arguments) and the
  tool's record of the content that the \<open>call_tool\<close> made for this request returned;
  and the next event is the inference call, with these messages.
\<close>

theorem resolved_calls_invoked_and_recorded:
  assumes "calls_of m = tcs"
    and "\<forall>tc\<in>set tcs. map_of (tool_mapping c) (tc_name tc) \<noteq> None"
    and "process_tool_calls env c s l tcs = (Inr l', s')"
  shows "tool_invocations (trace s') =
           tool_invocations (trace s) @ concat (map (invocation env c) tcs) \<and>
         length (concat (map (invocation env c) tcs)) = length tcs \<and>
         inference_calls (trace s') = inference_calls (trace s) \<and>
         length (messages l') = length (messages l) + 2 * length tcs \<and>
         length (returned env c (world s) tcs) = length tcs \<and>
         messages l' =
           messages l @ concat (map2 (exchange env) tcs (returned env c (world s) tcs)) \<and>
         trace (snd (loop_body env c available_tools s l m)) =
           trace s' @ [Create (messages l') available_tools]"
proof -
  note r = process_tool_calls_resolved[OF assms(2,3)]
  have r1: "length (returned env c (world s) tcs) = length tcs" using r by blast
  have r2: "messages l' =
      messages l @ concat (map2 (exchange env) tcs (returned env c (world s) tcs))"
    using r by blast
  have r3: "trace s' = trace s @ concat (map (invocation env c) tcs)" using r by blast
  have r4: "\<forall>tc\<in>set tcs. \<exists>a. json_loads env (tc_arguments tc) = Inr a" using r by blast
  note inv = length_concat_invocation[OF assms(2) r4]
  have 1: "tool_invocations (trace s') =
           tool_invocations (trace s) @ concat (map (invocation env c) tcs)"
    using r3 inv by (simp add: tool_invocations_def list_all_iff)
  have "filter is_Create (concat (map (invocation env c) tcs)) = []"
    using inv by (auto simp: filter_empty_conv list_all_iff dest: CallTool_not_Create)
  then have 3: "inference_calls (trace s') = inference_calls (trace s)"
    using r3 by (simp add: inference_calls_def)
  have 4: "length (messages l') = length (messages l) + 2 * length tcs"
    using r2 length_concat_exchange[OF r1 r4] by simp
  have 6: "trace (snd (loop_body env c available_tools s l m)) =
           trace s' @ [Create (messages l') available_tools]"
    using assms(1,3)
    by (simp add: loop_body_def request_message_def do_create_def
             split: prod.splits sum.splits list.splits option.splits)
  show ?thesis using 1 inv 3 4 6 r1 r2 by blast
qed

theorem resolved_calls_invoked_and_recorded_witness:
  "process_tool_calls (demo_env (\<lambda>w. [says ''done'']) (\<lambda>w h. [weather_tool]) ok_run)
       one_server start user_locals [weather_call ''1'', weather_call ''2''] =
     (Inr \<lparr>messages = [UserMsg ''hi'',
             AssistantToolCall ''1'' ''server0_get_weather'' ''{}'', ToolMsg ''1'' ''sunny'',
             AssistantToolCall ''2'' ''server0_get_weather'' ''{}'', ToolMsg ''2'' ''sunny''],
           final_text = ['''',
             txt_annot_a @ ''server0_get_weather'' @ txt_annot_b @ ''{}]'',
             txt_result @ ''sunny'',
             txt_annot_a @ ''server0_get_weather'' @ txt_annot_b @ ''{}]'',
             txt_result @ ''sunny'']\<rparr>,
      \<lparr>world = 2,
       trace = [CallTool 1 ''get_weather'' ''{}'', CallTool 1 ''get_weather'' ''{}'']\<rparr>) \<and>
   trace (snd (loop_body (demo_env (\<lambda>w. [says ''done'']) (\<lambda>w h. [weather_tool]) ok_run)
       one_server catalog1 start user_locals (asks [weather_call ''1'', weather_call ''2'']))) =
     [CallTool 1 ''get_weather'' ''{}'', CallTool 1 ''get_weather'' ''{}'',
      Create [UserMsg ''hi'',
             AssistantToolCall ''1'' ''server0_get_weather'' ''{}'', ToolMsg ''1'' ''sunny'',
             AssistantToolCall ''2'' ''server0_get_weather'' ''{}'', ToolMsg ''2'' ''sunny'']
        catalog1] \<and>
   returned (demo_env (\<lambda>w. [says ''done'']) (\<lambda>w h. [weather_tool]) ok_run)
       one_server (world start) [weather_call ''1'', weather_call ''2''] =
     [\<lparr>result_content = ''sunny'', isError = False\<rparr>,
      \<lparr>result_content = ''sunny'', isError = False\<rparr>]"
  using resolved_calls_invoked_and_recorded[of
      "asks [weather_call ''1'', weather_call ''2'']" "[weather_call ''1'', weather_call ''2'']"
      one_server "demo_env (\<lambda>w. [says ''done'']) (\<lambda>w h. [weather_tool]) ok_run" start user_locals
      "\<lparr>messages = [UserMsg ''hi'',
             AssistantToolCall ''1'' ''server0_get_weather'' ''{}'', ToolMsg ''1'' ''sunny'',
             AssistantToolCall ''2'' ''server0_get_weather'' ''{}'', ToolMsg ''2'' ''sunny''],
           final_text = ['''',
             txt_annot_a @ ''server0_get_weather'' @ txt_annot_b @ ''{}]'',
             txt_result @ ''sunny'',
             txt_annot_a @ ''server0_get_weather'' @ txt_annot_b @ ''{}]'',
             txt_result @ ''sunny'']\<rparr>"
      "\<lparr>world = 2,
       trace = [CallTool 1 ''get_weather'' ''{}'', CallTool 1 ''get_weather'' ''{}'']\<rparr>"
      catalog1]
  by (simp add: demo_defs run_defs)

section \<open>What the loop adds to the trace\<close>

lemma process_tool_call_events:
  "process_tool_call env c s l tc = (r, s') \<Longrightarrow>
   \<exists>evs. trace s' = trace s @ evs \<and> list_all (loop_event tools) evs"
  by (auto simp: process_tool_call_def do_call_tool_def record_result_def do_print_def emit_def
        Let_def split: option.splits sum.splits prod.splits if_splits)

lemma process_tool_calls_events:
  "process_tool_calls env c s l tcs = (r, s') \<Longrightarrow>
   \<exists>evs. trace s' = trace s @ evs \<and> list_all (loop_event tools) evs"
proof (induction tcs arbitrary: s l)
  case Nil
  then show ?case by simp
next
  case (Cons tc tcs)
  obtain r1 s1 where one: "process_tool_call env c s l tc = (r1, s1)" by (cases "process_tool_call env c s l tc")
  from process_tool_call_events[OF one] obtain evs1
    where e1: "trace s1 = trace s @ evs1" "list_all (loop_event tools) evs1" by blast
  show ?case
  proof (cases r1)
    case (Inl e)
    with Cons.prems one have "s' = s1" by simp
    with e1 show ?thesis by blast
  next
    case (Inr l1)
    with Cons.prems one have "process_tool_calls env c s1 l1 tcs = (r, s')" by simp
    from Cons.IH[OF this] obtain evs2
      where e2: "trace s' = trace s1 @ evs2" "list_all (loop_event tools) evs2" by blast
    have "trace s' = trace s @ (evs1 @ evs2) \<and> list_all (loop_event tools) (evs1 @ evs2)"
      using e1 e2 by simp
    then show ?thesis by blast
  qed
qed

lemma request_message_events:
  "request_message env c tools s msgs = (r, s') \<Longrightarrow> trace s' = trace s @ [Create msgs tools]"
  by (auto simp: request_message_def do_create_def split: prod.splits sum.splits list.splits)

lemma loop_body_events:
  assumes "loop_body env c tools s l m = (r, s')"
  shows "\<exists>evs. trace s' = trace s @ evs \<and> list_all (loop_event tools) evs"
proof -
  obtain r1 s1 where p: "process_tool_calls env c s l (calls_of m) = (r1, s1)"
    by (cases "process_tool_calls env c s l (calls_of m)")
  from process_tool_calls_events[OF p] obtain evs1
    where e1: "trace s1 = trace s @ evs1" "list_all (loop_event tools) evs1" by blast
  show ?thesis
  proof (cases r1)
    case (Inl e)
    with assms p have "s' = s1" by (simp add: loop_body_def)
    with e1 show ?thesis by blast
  next
    case (Inr l1)
    obtain r2 s2 where q: "request_message env c tools s1 (messages l1) = (r2, s2)"
      by (cases "request_message env c tools s1 (messages l1)")
    with assms p Inr have "s' = s2"
      by (auto simp: loop_body_def split: sum.splits option.splits if_splits)
    with request_message_events[OF q] e1
    have "trace s' = trace s @ (evs1 @ [Create (messages l1) tools]) \<and>
          list_all (loop_event tools) (evs1 @ [Create (messages l1) tools])" by simp
    then show ?thesis by blast
  qed
qed

lemma tool_loop_events:
  fixes env :: "('w, 'j, 'c) env"
  assumes "tool_loop env c tools s l m = Some y"
  shows "\<exists>evs. trace (snd y) = trace s @ evs \<and> list_all (loop_event tools) evs"
proof (rule tool_loop.raw_induct[where P = "\<lambda>env c tools s l m y.
         \<exists>evs. trace (snd y) = trace s @ evs \<and> list_all (loop_event tools) evs", OF _ assms])
  fix f :: "('w, 'j, 'c) env \<Rightarrow> client \<Rightarrow> 'j tool_spec list \<Rightarrow> ('w, 'j, 'c) sys \<Rightarrow> locals \<Rightarrow>
              message \<Rightarrow> ((exn + string) \<times> ('w, 'j, 'c) sys) option"
    and env :: "('w, 'j, 'c) env" and c tools and s :: "('w, 'j, 'c) sys" and l m y
  assume IH: "\<And>env c tools s l m y. f env c tools s l m = Some y \<Longrightarrow>
                \<exists>evs. trace (snd y) = trace s @ evs \<and> list_all (loop_event tools) evs"
  assume eq: "(if calls_of m \<noteq> [] then
                 (case loop_body env c tools s l m of
                    (Inl e, s1) \<Rightarrow> Some (Inl e, s1)
                  | (Inr (m', l1), s1) \<Rightarrow> f env c tools s1 l1 m')
               else Some (Inr (py_join [CHR 0x0A] (final_text l)), s)) = Some y"
  show "\<exists>evs. trace (snd y) = trace s @ evs \<and> list_all (loop_event tools) evs"
  proof (cases "calls_of m \<noteq> []")
    case False
    with eq show ?thesis by auto
  next
    case True
    obtain r1 s1 where b: "loop_body env c tools s l m = (r1, s1)"
      by (cases "loop_body env c tools s l m")
    from loop_body_events[OF b] obtain evs1
      where e1: "trace s1 = trace s @ evs1" "list_all (loop_event tools) evs1" by blast
    show ?thesis
    proof (cases r1)
      case (Inl e)
      with eq True b have "snd y = s1" by auto
      with e1 show ?thesis by auto
    next
      case (Inr p)
      obtain m' l1 where p: "p = (m', l1)" by (cases p)
      with eq True b Inr have "f env c tools s1 l1 m' = Some y" by simp
      from IH[OF this] obtain evs2
        where e2: "trace (snd y) = trace s1 @ evs2" "list_all (loop_event tools) evs2" by blast
      have "trace (snd y) = trace s @ (evs1 @ evs2) \<and> list_all (loop_event tools) (evs1 @ evs2)"
        using e1 e2 by simp
      then show ?thesis by blast
    qed
  qed
qed

lemma collect_tools_trace:
  "collect_tools env s ss acc = (Inr tools, s1) \<Longrightarrow>
   trace s1 = trace s @ map (\<lambda>(server_id, session). ListTools session) ss"
  by (induction ss arbitrary: s acc)
     (auto simp: do_list_tools_def split: prod.splits sum.splits)

lemma loop_events_observed:
  "list_all (loop_event tools) evs \<Longrightarrow>
   discoveries evs = [] \<and> (\<exists>n. catalogs evs = replicate n tools)"
proof (induction evs)
  case Nil
  then show ?case by (simp add: discoveries_def catalogs_def map_filter_simps)
next
  case (Cons e evs)
  then obtain n where n: "discoveries evs = []" "catalogs evs = replicate n tools" by auto
  from Cons.prems have "loop_event tools e" by simp
  then show ?case
  proof (cases e)
    case (Create msgs ts)
    with \<open>loop_event tools e\<close> have "ts = tools" by simp
    with Create n have "discoveries (e # evs) = [] \<and> catalogs (e # evs) = replicate (Suc n) tools"
      by (simp add: discoveries_def catalogs_def map_filter_simps)
    then show ?thesis by blast
  qed (use n in \<open>auto simp: discoveries_def catalogs_def map_filter_simps\<close>)
qed

lemma discoveries_append [simp]: "discoveries (a @ b) = discoveries a @ discoveries b"
  by (simp add: discoveries_def)

lemma catalogs_append [simp]: "catalogs (a @ b) = catalogs a @ catalogs b"
  by (simp add: catalogs_def map_filter_def)

lemma discoveries_ListTools:
  "discoveries (map (\<lambda>(server_id, session). ListTools session) ss) =
     map (\<lambda>(server_id, session). ListTools session) ss"
  by (induction ss) (auto simp: discoveries_def)

lemma catalogs_ListTools:
  "catalogs (map (\<lambda>(server_id, session). ListTools session) ss) = []"
  by (induction ss) (auto simp: catalogs_def map_filter_simps)

text \<open>
  C4, as stated, fails. The provider advertises \<open>get_weather\<close> until the first tool call
  has been made and nothing afterwards. The second inference call of the query still
  carries the catalog with \<open>server0_get_weather\<close>, and \<open>list_tools\<close> was called once, before
  the first inference call; collecting the catalog at the time of the second call would
  give the empty catalog.
\<close>

theorem catalog_computed_once_counterexample:
  "process_query fading_env one_server start ''hi'' =
     Some (Inr (py_join [CHR 0x0A]
             ['''', txt_annot_a @ ''server0_get_weather'' @ txt_annot_b @ ''{}]'',
              txt_result @ ''sunny'', ''done'']), fading_end) \<and>
   collect_tools fading_env \<lparr>world = 2, trace = []\<rparr> (sessions one_server) [] =
     (Inr [], \<lparr>world = 2, trace = [ListTools 1]\<rparr>)"
  by (simp add: fading_env_def fading_end_def demo_defs run_defs tool_loop.simps)

text \<open>
  C4, amended. The catalog is computed once per query, before the first inference call:
  a run of \<open>process_query\<close> that ends (with a text or an exception) has called
  \<open>list_tools\<close> once per session, in the order of \<open>self.sessions\<close>, and every one of its
  inference calls carries the catalog \<open>tools\<close> collected then.
\<close>

theorem catalog_computed_once_per_query:
  fixes env :: "('w, 'j, 'c) env"
  assumes "collect_tools env s (sessions c) [] = (Inr tools, s1)"
    and "process_query env c s query = Some (r, s')"
  shows "discoveries (trace s') =
           discoveries (trace s) @ map (\<lambda>(server_id, session). ListTools session) (sessions c) \<and>
         (\<exists>n. catalogs (trace s') = catalogs (trace s) @ replicate (Suc n) tools)"
proof -
  note t1 = collect_tools_trace[OF assms(1)]
  obtain r2 s2 where q: "request_message env c tools s1 [UserMsg query] = (r2, s2)"
    by (cases "request_message env c tools s1 [UserMsg query]")
  note t2 = request_message_events[OF q]
  have "\<exists>evs. trace s' = trace s2 @ evs \<and> list_all (loop_event tools) evs"
  proof (cases r2)
    case (Inl e)
    with assms q have "s' = s2" by (simp add: process_query_def)
    then show ?thesis by simp
  next
    case (Inr m)
    with assms q have "tool_loop env c tools s2
        \<lparr>messages = [UserMsg query],
         final_text = [case content m of None \<Rightarrow> [] | Some t \<Rightarrow> t]\<rparr> m = Some (r, s')"
      by (simp add: process_query_def)
    from tool_loop_events[OF this] show ?thesis by simp
  qed
  then obtain evs where e: "trace s' = trace s2 @ evs" "list_all (loop_event tools) evs" by blast
  from loop_events_observed[OF e(2)] obtain n
    where n: "discoveries evs = []" "catalogs evs = replicate n tools" by blast
  have "discoveries (trace s') =
          discoveries (trace s) @ map (\<lambda>(server_id, session). ListTools session) (sessions c)"
    using e(1) t1 t2 n(1) by (simp add: discoveries_ListTools) (simp add: discoveries_def)
  moreover have "catalogs (trace s') = catalogs (trace s) @ replicate (Suc n) tools"
    using e(1) t1 t2 n(2) by (simp add: catalogs_ListTools) (simp add: catalogs_def map_filter_simps)
  ultimately show ?thesis by blast
qed

theorem catalog_computed_once_per_query_witness:
  "discoveries (trace fading_end) = [ListTools 1] \<and>
   (\<exists>n. catalogs (trace fading_end) = replicate (Suc n) catalog1)"
proof -
  have run: "process_query fading_env one_server start ''hi'' =
     Some (Inr (py_join [CHR 0x0A]
             ['''', txt_annot_a @ ''server0_get_weather'' @ txt_annot_b @ ''{}]'',
              txt_result @ ''sunny'', ''done'']), fading_end)"
    by (simp add: fading_env_def fading_end_def demo_defs run_defs tool_loop.simps)
  have col: "collect_tools fading_env start (sessions one_server) [] =
               (Inr catalog1, \<lparr>world = 0, trace = [ListTools 1]\<rparr>)"
    by (simp add: fading_env_def demo_defs run_defs)
  from catalog_computed_once_per_query[OF col run]
  show ?thesis by (simp add: start_def one_server_def discoveries_def catalogs_def map_filter_simps)
qed

section \<open>Termination of the loop\<close>

lemma tool_loop_no_text:
  fixes env :: "('w, 'j, 'c) env"
  assumes always: "\<And>w ms ts m rest w'.
      create env w (model_name c) ms ts = (Inr (m # rest), w') \<Longrightarrow> calls_of m \<noteq> []"
    and run: "tool_loop env c0 tools s l m = Some y"
  shows "c0 = c \<longrightarrow> calls_of m \<noteq> [] \<longrightarrow> (\<exists>e. fst y = Inl e)"
proof -
  have "env = env \<longrightarrow> c0 = c \<longrightarrow> calls_of m \<noteq> [] \<longrightarrow> (\<exists>e. fst y = Inl e)"
  proof (rule tool_loop.raw_induct[where P = "\<lambda>env' c0 tools s l m y.
         env' = env \<longrightarrow> c0 = c \<longrightarrow> calls_of m \<noteq> [] \<longrightarrow> (\<exists>e. fst y = Inl e)", OF _ run])
  fix f :: "('w, 'j, 'c) env \<Rightarrow> client \<Rightarrow> 'j tool_spec list \<Rightarrow> ('w, 'j, 'c) sys \<Rightarrow> locals \<Rightarrow>
              message \<Rightarrow> ((exn + string) \<times> ('w, 'j, 'c) sys) option"
    and env' :: "('w, 'j, 'c) env" and c0 tools and s :: "('w, 'j, 'c) sys" and l m y
  assume IH: "\<And>env' c0 tools s l m y. f env' c0 tools s l m = Some y \<Longrightarrow>
                env' = env \<longrightarrow> c0 = c \<longrightarrow> calls_of m \<noteq> [] \<longrightarrow> (\<exists>e. fst y = Inl e)"
  assume eq: "(if calls_of m \<noteq> [] then
                 (case loop_body env' c0 tools s l m of
                    (Inl e, s1) \<Rightarrow> Some (Inl e, s1)
                  | (Inr (m', l1), s1) \<Rightarrow> f env' c0 tools s1 l1 m')
               else Some (Inr (py_join [CHR 0x0A] (final_text l)), s)) = Some y"
  show "env' = env \<longrightarrow> c0 = c \<longrightarrow> calls_of m \<noteq> [] \<longrightarrow> (\<exists>e. fst y = Inl e)"
  proof (intro impI)
    assume env: "env' = env" and c: "c0 = c" and True: "calls_of m \<noteq> []"
    obtain r1 s1 where b: "loop_body env c tools s l m = (r1, s1)"
      by (cases "loop_body env c tools s l m")
    show "\<exists>e. fst y = Inl e"
    proof (cases r1)
      case (Inl e)
      with eq True b env c show ?thesis by auto
    next
      case (Inr p)
      obtain m' l1 where p: "p = (m', l1)" by (cases p)
      with eq True b Inr env c have run': "f env c tools s1 l1 m' = Some y" by simp
      from b Inr p have "calls_of m' \<noteq> []"
        by (auto simp: loop_body_def request_message_def do_create_def
              split: prod.splits sum.splits list.splits option.splits if_splits dest: always)
      with IH[OF run'] show ?thesis by simp
    qed
  qed
  qed
  then show ?thesis by simp
qed

lemma nagging_loop_body:
  "\<exists>l' s'. loop_body nagging_env one_server tools s l (asks [request ''1'' ''nope'' ''{}'']) =
     (Inr (asks [request ''1'' ''nope'' ''{}''], l'), s')"
  by (simp add: nagging_env_def nagging_def demo_defs run_defs)

lemma nagging_tool_loop:
  assumes run: "tool_loop env c tools s l m = Some y"
  shows "env = nagging_env \<longrightarrow> c = one_server \<longrightarrow> m = asks [request ''1'' ''nope'' ''{}''] \<longrightarrow> False"
proof (rule tool_loop.raw_induct[where P = "\<lambda>env c tools s l m y.
         env = nagging_env \<longrightarrow> c = one_server \<longrightarrow> m = asks [request ''1'' ''nope'' ''{}''] \<longrightarrow> False",
       OF _ run])
  fix f :: "(nat, string, string) env \<Rightarrow> client \<Rightarrow> string tool_spec list \<Rightarrow> (nat, string, string) sys \<Rightarrow>
              locals \<Rightarrow> message \<Rightarrow> ((exn + string) \<times> (nat, string, string) sys) option"
    and env :: "(nat, string, string) env" and c tools and s :: "(nat, string, string) sys" and l m y
  assume IH: "\<And>env c tools s l m y. f env c tools s l m = Some y \<Longrightarrow>
     env = nagging_env \<longrightarrow> c = one_server \<longrightarrow> m = asks [request ''1'' ''nope'' ''{}''] \<longrightarrow> False"
  assume eq: "(if calls_of m \<noteq> [] then
                 (case loop_body env c tools s l m of
                    (Inl e, s1) \<Rightarrow> Some (Inl e, s1)
                  | (Inr (m', l1), s1) \<Rightarrow> f env c tools s1 l1 m')
               else Some (Inr (py_join [CHR 0x0A] (final_text l)), s)) = Some y"
  show "env = nagging_env \<longrightarrow> c = one_server \<longrightarrow> m = asks [request ''1'' ''nope'' ''{}''] \<longrightarrow> False"
  proof (intro impI)
    assume h: "env = nagging_env" "c = one_server" "m = asks [request ''1'' ''nope'' ''{}'']"
    from nagging_loop_body[of tools s l] obtain l' s'
      where b: "loop_body nagging_env one_server tools s l (asks [request ''1'' ''nope'' ''{}'']) =
                  (Inr (asks [request ''1'' ''nope'' ''{}''], l'), s')" by blast
    have "calls_of m \<noteq> []" using h by (simp add: calls_of_def asks_def)
    with eq h b have "f nagging_env one_server tools s' l' (asks [request ''1'' ''nope'' ''{}'']) = Some y"
      by simp
    from IH[OF this] show False by simp
  qed
qed

text \<open>
  C2, as stated, fails: with a model that requests a tool (here an unregistered one) in
  every response, \<open>process_query\<close> never returns.
\<close>

theorem no_turn_guard_counterexample:
  "process_query nagging_env one_server start ''hi'' = None"
proof -
  have "tool_loop nagging_env one_server catalog1
          \<lparr>world = 1, trace = [ListTools 1, Create [UserMsg ''hi''] catalog1]\<rparr> user_locals
          (asks [request ''1'' ''nope'' ''{}'']) = None"
  proof (cases "tool_loop nagging_env one_server catalog1
          \<lparr>world = 1, trace = [ListTools 1, Create [UserMsg ''hi''] catalog1]\<rparr> user_locals
          (asks [request ''1'' ''nope'' ''{}''])")
    case None
    then show ?thesis .
  next
    case (Some y)
    from nagging_tool_loop[OF Some] show ?thesis by simp
  qed
  then show ?thesis
    by (simp add: nagging_env_def nagging_def demo_defs run_defs)
qed

text \<open>
  C2, amended. The loop has no turn or time guard and no terminal state of its own: when
  every response of the model requests at least one tool call, \<open>process_query\<close> never
  returns a text; it runs forever or ends with an exception.
\<close>

theorem no_turn_guard:
  fixes env :: "('w, 'j, 'c) env"
  assumes "\<And>w ms ts m rest w'.
      create env w (model_name c) ms ts = (Inr (m # rest), w') \<Longrightarrow> calls_of m \<noteq> []"
  shows "process_query env c s query \<noteq> Some (Inr out, s')"
proof
  assume ret: "process_query env c s query = Some (Inr out, s')"
  then obtain tools s1 where ct: "collect_tools env s (sessions c) [] = (Inr tools, s1)"
    by (auto simp: process_query_def Let_def split: prod.splits sum.splits)
  with ret obtain m s2 where rq: "request_message env c tools s1 [UserMsg query] = (Inr m, s2)"
    by (auto simp: process_query_def Let_def split: prod.splits sum.splits)
  with ret ct have tl: "tool_loop env c tools s2
        \<lparr>messages = [UserMsg query],
         final_text = [case content m of None \<Rightarrow> [] | Some t \<Rightarrow> t]\<rparr> m = Some (Inr out, s')"
    by (simp add: process_query_def)
  from rq have "calls_of m \<noteq> []"
    by (auto simp: request_message_def do_create_def
          split: prod.splits sum.splits list.splits dest: assms)
  moreover have "c = c \<longrightarrow> calls_of m \<noteq> [] \<longrightarrow> (\<exists>e. fst (Inr out :: exn + string, s') = Inl e)"
    by (rule tool_loop_no_text[where c = c, OF _ tl]) (rule assms)
  ultimately show False by simp
qed

theorem no_turn_guard_witness:
  "\<forall>out s'. process_query nagging_env one_server start ''hi'' \<noteq> Some (Inr out, s')"
proof (intro allI)
  fix out s'
  show "process_query nagging_env one_server start ''hi'' \<noteq> Some (Inr out, s')"
    by (rule no_turn_guard[where env = nagging_env and c = one_server])
       (auto simp: nagging_env_def nagging_def demo_defs)
qed

section \<open>The registry\<close>

lemma map_of_dict_set: "map_of (dict_set k v d) = (map_of d)(k \<mapsto> v)"
  by (induction d) (auto simp: fun_eq_iff)

lemma dict_set_fresh: "k \<notin> fst ` set d \<Longrightarrow> dict_set k v d = d @ [(k, v)]"
proof (induction d)
  case Nil
  show ?case by simp
next
  case (Cons a d)
  obtain k' v' where a: "a = (k', v')" by (cases a)
  from Cons.prems a have "k' \<noteq> k" "k \<notin> fst ` set d" by auto
  with Cons.IH a show ?case by simp
qed

lemma prefixed_inject [simp]: "prefixed sid n = prefixed sid n' \<longleftrightarrow> n = n'"
  by (simp add: prefixed_def)

lemma map_of_register_tools:
  "map_of (register_tools sid session tools tm) k =
     (if k \<in> (\<lambda>t. prefixed sid (name t)) ` set tools
      then Some (session, drop (length sid + 1) k) else map_of tm k)"
proof (induction tools arbitrary: tm)
  case Nil
  then show ?case by simp
next
  case (Cons t ts)
  show ?case
    by (auto simp: Cons.IH map_of_dict_set prefixed_def)
qed

lemma digit_char_inject: "a < 10 \<Longrightarrow> b < 10 \<Longrightarrow> digit_char a = digit_char b \<Longrightarrow> a = b"
proof -
  assume a: "a < 10" and b: "b < 10" and e: "digit_char a = digit_char b"
  from e have "of_char (digit_char a) = (of_char (digit_char b) :: nat)" by simp
  then have "(48 + a) mod 256 = (48 + b) mod 256" by (simp add: digit_char_def)
  with a b show "a = b" by simp
qed

lemma digit_char_not_underscore: "d < 10 \<Longrightarrow> digit_char d \<noteq> CHR ''_''"
proof
  assume d: "d < 10" and e: "digit_char d = CHR ''_''"
  from e have "of_char (digit_char d) = (of_char (CHR ''_'') :: nat)" by simp
  then have "(48 + d) mod 256 = 95" by (simp add: digit_char_def)
  with d show False by simp
qed

lemma str_nat_not_Nil [simp]: "str_nat n \<noteq> []"
  by (subst str_nat.simps) simp

lemma Nil_not_str_nat [simp]: "[] \<noteq> str_nat n"
  using str_nat_not_Nil[of n] by (simp del: str_nat_not_Nil)

lemma underscore_notin_str_nat: "CHR ''_'' \<notin> set (str_nat n)"
proof (induction n rule: str_nat.induct)
  case (1 n)
  show ?case
  proof (cases "n < 10")
    case True
    then show ?thesis using digit_char_not_underscore[of n] by (subst str_nat.simps) auto
  next
    case False
    then show ?thesis using 1 digit_char_not_underscore[of "n mod 10"]
      by (subst str_nat.simps) auto
  qed
qed

lemma str_nat_inject: "str_nat n = str_nat m \<Longrightarrow> n = m"
proof (induction n arbitrary: m rule: str_nat.induct)
  case (1 n)
  show ?case
  proof (cases "n < 10")
    case n: True
    show ?thesis
    proof (cases "m < 10")
      case True
      with n 1(2) show ?thesis
        by (simp add: str_nat.simps[of n] str_nat.simps[of m] digit_char_inject)
    next
      case False
      with n 1(2) show ?thesis
        by (simp add: str_nat.simps[of n] str_nat.simps[of m])
    qed
  next
    case n: False
    show ?thesis
    proof (cases "m < 10")
      case True
      with n 1(2) show ?thesis
        by (simp add: str_nat.simps[of n] str_nat.simps[of m])
    next
      case False
      with n 1(2) have e: "str_nat (n div 10) = str_nat (m div 10)"
        "digit_char (n mod 10) = digit_char (m mod 10)"
        by (simp_all add: str_nat.simps[of n] str_nat.simps[of m])
      from 1(1)[OF n e(1)] have "n div 10 = m div 10" .
      moreover from e(2) have "n mod 10 = m mod 10" by (simp add: digit_char_inject)
      ultimately show ?thesis by (metis div_mult_mod_eq)
    qed
  qed
qed

lemma split_at_mark:
  "x \<notin> set a \<Longrightarrow> x \<notin> set b \<Longrightarrow> a @ x # u = b @ x # v \<Longrightarrow> a = b \<and> u = v"
proof (induction a arbitrary: b)
  case Nil
  then show ?case by (cases b) auto
next
  case (Cons y a)
  then show ?case by (cases b) auto
qed

lemma prefixed_server_inject:
  "prefixed (server_id_of i) n = prefixed (server_id_of j) n' \<Longrightarrow> i = j \<and> n = n'"
proof -
  assume "prefixed (server_id_of i) n = prefixed (server_id_of j) n'"
  then have "str_nat i @ CHR ''_'' # n = str_nat j @ CHR ''_'' # n'"
    by (simp add: prefixed_def server_id_of_def)
  from split_at_mark[OF underscore_notin_str_nat underscore_notin_str_nat this]
  show ?thesis by (auto dest: str_nat_inject)
qed

lemma server_id_of_inject: "server_id_of i = server_id_of j \<Longrightarrow> i = j"
  by (simp add: server_id_of_def str_nat_inject)

lemma register_tools_fresh:
  "distinct (map name tools) \<Longrightarrow> \<forall>t \<in> set tools. prefixed sid (name t) \<notin> fst ` set tm \<Longrightarrow>
   register_tools sid session tools tm = tm @ entries sid session tools"
proof (induction tools arbitrary: tm)
  case Nil
  then show ?case by (simp add: entries_def)
next
  case (Cons t ts)
  from Cons.prems have fresh: "prefixed sid (name t) \<notin> fst ` set tm" by simp
  have "\<forall>u \<in> set ts. prefixed sid (name u) \<notin>
          fst ` set (tm @ [(prefixed sid (name t), (session, name t))])"
    using Cons.prems by (fastforce simp: image_iff)
  with Cons.IH[of "tm @ [(prefixed sid (name t), (session, name t))]"] Cons.prems(1)
  have "register_tools sid session ts (tm @ [(prefixed sid (name t), (session, name t))]) =
          (tm @ [(prefixed sid (name t), (session, name t))]) @ entries sid session ts"
    by simp
  then show ?case by (simp add: dict_set_fresh[OF fresh] entries_def)
qed

lemma init_server_success:
  assumes "init_server env k c s i src = (Inr u, c', s')"
  shows "\<exists>tr session tools w w'. list_tools env w session = (Inr tools, w') \<and>
           c' = c\<lparr>exit_stack := Session session # Transport tr # exit_stack c,
                  sessions := dict_set (server_id_of i) session (sessions c),
                  tool_mapping := register_tools (server_id_of i) session tools (tool_mapping c)\<rparr>"
  using assms
  apply (auto simp: init_server_def enter_transport_cm_def enter_session_cm_def do_initialize_def
        do_list_tools_def Let_def split: prod.splits sum.splits)
  apply (intro exI conjI)
   apply assumption
  apply (rule refl)
  done

lemma keys_below_mono: "keys_below i tm \<Longrightarrow> i \<le> j \<Longrightarrow> keys_below j tm"
  unfolding keys_below_def by (meson order.strict_trans2)

lemma ids_below_mono: "ids_below i tm \<Longrightarrow> i \<le> j \<Longrightarrow> ids_below j tm"
  unfolding ids_below_def by (meson order.strict_trans2)

lemma fresh_prefixed: "keys_below i tm \<Longrightarrow> prefixed (server_id_of i) n \<notin> fst ` set tm"
proof
  assume kb: "keys_below i tm" and "prefixed (server_id_of i) n \<in> fst ` set tm"
  then obtain j n' where "j < i" "prefixed (server_id_of i) n = prefixed (server_id_of j) n'"
    unfolding keys_below_def by blast
  with prefixed_server_inject show False by blast
qed

lemma fresh_id: "ids_below i ss \<Longrightarrow> server_id_of i \<notin> fst ` set ss"
proof
  assume "ids_below i ss" and "server_id_of i \<in> fst ` set ss"
  then obtain j where "j < i" "server_id_of i = server_id_of j"
    unfolding ids_below_def by blast
  with server_id_of_inject show False by blast
qed

lemma keys_entries: "fst ` set (entries sid session tools) = (\<lambda>t. prefixed sid (name t)) ` set tools"
  by (auto simp: entries_def image_iff)

lemma distinct_entries: "distinct (map name tools) \<Longrightarrow> distinct (map fst (entries sid session tools))"
  by (simp add: entries_def comp_def distinct_map inj_on_def)

lemma init_server_invariant:
  fixes env :: "('w, 'j, 'c) env"
  assumes run: "init_server env k c s i src = (Inr u, c', s')"
    and dist: "\<forall>w h ts w'. list_tools env w h = (Inr ts, w') \<longrightarrow> distinct (map name ts)"
    and inv: "ids_below i (sessions c)" "keys_below i (tool_mapping c)"
      "distinct (map fst (tool_mapping c))"
  shows "\<exists>session tools. (\<exists>w w'. list_tools env w session = (Inr tools, w')) \<and>
           sessions c' = sessions c @ [(server_id_of i, session)] \<and>
           tool_mapping c' = tool_mapping c @ entries (server_id_of i) session tools \<and>
           ids_below (Suc i) (sessions c') \<and> keys_below (Suc i) (tool_mapping c') \<and>
           distinct (map fst (tool_mapping c'))"
proof -
  from init_server_success[OF run] obtain tr session and tools :: "'j tool list" and w w'
    where lt: "list_tools env w session = (Inr tools, w')"
      and c': "c' = c\<lparr>exit_stack := Session session # Transport tr # exit_stack c,
                  sessions := dict_set (server_id_of i) session (sessions c),
                  tool_mapping := register_tools (server_id_of i) session tools (tool_mapping c)\<rparr>"
    by blast
  have d: "distinct (map name tools)" using dist lt by blast
  have tm: "tool_mapping c' = tool_mapping c @ entries (server_id_of i) session tools"
    using c' register_tools_fresh[OF d, of "server_id_of i" "tool_mapping c" session]
      fresh_prefixed[OF inv(2)] by simp
  have ss: "sessions c' = sessions c @ [(server_id_of i, session)]"
    using c' dict_set_fresh[OF fresh_id[OF inv(1)]] by simp
  have 1: "ids_below (Suc i) (sessions c')"
    using ids_below_mono[OF inv(1), of "Suc i"] by (auto simp: ss ids_below_def)
  have 2: "keys_below (Suc i) (tool_mapping c')"
    unfolding keys_below_def
  proof (intro ballI)
    fix k assume "k \<in> fst ` set (tool_mapping c')"
    then consider "k \<in> fst ` set (tool_mapping c)"
      | t :: "'j tool" where "t \<in> set tools" "k = prefixed (server_id_of i) (name t)"
      by (auto simp: tm entries_def)
    then show "\<exists>j<Suc i. \<exists>n. k = prefixed (server_id_of j) n"
    proof cases
      case 1
      with inv(2) obtain j n where "j < i" "k = prefixed (server_id_of j) n"
        unfolding keys_below_def by blast
      then show ?thesis using less_SucI by blast
    next
      case 2
      then show ?thesis using lessI by blast
    qed
  qed
  have 3: "distinct (map fst (tool_mapping c'))"
  proof -
    have "fst ` set (tool_mapping c) \<inter> fst ` set (entries (server_id_of i) session tools) = {}"
    proof (rule equals0I)
      fix x assume "x \<in> fst ` set (tool_mapping c) \<inter> fst ` set (entries (server_id_of i) session tools)"
      then obtain t :: "'j tool"
        where "x = prefixed (server_id_of i) (name t)" "x \<in> fst ` set (tool_mapping c)"
        unfolding keys_entries by blast
      with fresh_prefixed[OF inv(2), of "name t"] show False by simp
    qed
    then show ?thesis
      using inv(3) distinct_entries[OF d, of "server_id_of i" session] by (simp add: tm)
  qed
  from lt ss tm 1 2 3 show ?thesis by blast
qed

lemma init_loop_namespace:
  fixes env :: "('w, 'j, 'c) env"
  assumes run: "init_loop env k c s i srcs = (Inr u, c', s')"
    and dist: "\<forall>w h ts w'. list_tools env w h = (Inr ts, w') \<longrightarrow> distinct (map name ts)"
    and inv: "ids_below i (sessions c)" "keys_below i (tool_mapping c)"
      "distinct (map fst (tool_mapping c))"
  shows "\<exists>blocks :: (nat \<times> 'j tool list) list. length blocks = length srcs \<and>
           (\<forall>(session, tools) \<in> set blocks. \<exists>w w'. list_tools env w session = (Inr tools, w')) \<and>
           sessions c' = sessions c @ sessions_from i blocks \<and>
           tool_mapping c' = tool_mapping c @ namespace_from i blocks \<and>
           distinct (map fst (tool_mapping c'))"
  using run inv
proof (induction srcs arbitrary: c s i)
  case Nil
  then show ?case by (simp add: sessions_from_def namespace_from_def enumerate_eq_zip)
next
  case (Cons src srcs)
  from Cons.prems(1) obtain u1 c1 s1
    where one: "init_server env k c s i src = (Inr u1, c1, s1)"
      and more: "init_loop env k c1 s1 (Suc i) srcs = (Inr u, c', s')"
    by (auto split: prod.splits sum.splits)
  from init_server_invariant[OF one dist Cons.prems(2,3,4)]
  obtain session and tools :: "'j tool list"
    where b: "\<exists>w w'. list_tools env w session = (Inr tools, w')"
      "sessions c1 = sessions c @ [(server_id_of i, session)]"
      "tool_mapping c1 = tool_mapping c @ entries (server_id_of i) session tools"
      "ids_below (Suc i) (sessions c1)" "keys_below (Suc i) (tool_mapping c1)"
      "distinct (map fst (tool_mapping c1))"
    by blast
  from Cons.IH[OF more b(4,5,6)] obtain blocks :: "(nat \<times> 'j tool list) list"
    where ih: "length blocks = length srcs"
      "\<forall>(session, tools) \<in> set blocks. \<exists>w w'. list_tools env w session = (Inr tools, w')"
      "sessions c' = sessions c1 @ sessions_from (Suc i) blocks"
      "tool_mapping c' = tool_mapping c1 @ namespace_from (Suc i) blocks"
      "distinct (map fst (tool_mapping c'))"
    by blast
  have "length ((session, tools) # blocks) = length (src # srcs) \<and>
        (\<forall>(session, tools) \<in> set ((session, tools) # blocks).
           \<exists>w w'. list_tools env w session = (Inr tools, w')) \<and>
        sessions c' = sessions c @ sessions_from i ((session, tools) # blocks) \<and>
        tool_mapping c' = tool_mapping c @ namespace_from i ((session, tools) # blocks) \<and>
        distinct (map fst (tool_mapping c'))"
    using ih b(1,2,3) by (simp add: sessions_from_def namespace_from_def)
  then show ?case by blast
qed

lemma length_namespace_from:
  "length (namespace_from i blocks) = sum_list (map (\<lambda>(session, tools). length tools) blocks)"
proof (induction blocks arbitrary: i)
  case Nil
  show ?case by (simp add: namespace_from_def)
next
  case (Cons b blocks)
  obtain session tools where b: "b = (session, tools)" by (cases b)
  have "namespace_from i (b # blocks) =
          entries (server_id_of i) session tools @ namespace_from (Suc i) blocks"
    by (simp add: namespace_from_def b)
  with Cons.IH[of "Suc i"] show ?case by (simp add: b entries_def)
qed

lemma namespace_from_member:
  assumes "(j, session, tools) \<in> set (enumerate i blocks)" and "t \<in> set tools"
  shows "(prefixed (server_id_of j) (name t), session, name t) \<in> set (namespace_from i blocks)"
proof -
  have 1: "(prefixed (server_id_of j) (name t), session, name t) \<in>
             set (entries (server_id_of j) session tools)"
    using assms(2) by (simp add: entries_def image_iff) blast
  have 2: "entries (server_id_of j) session tools \<in>
             set (map (\<lambda>(j, session, tools). entries (server_id_of j) session tools)
                    (enumerate i blocks))"
    unfolding set_map by (rule image_eqI[where x = "(j, session, tools)"]) (simp_all add: assms(1))
  show ?thesis unfolding namespace_from_def set_concat using 1 2 by blast
qed

lemma str_nat_small: "n < 10 \<Longrightarrow> str_nat n = [digit_char n]"
  by (subst str_nat.simps) simp

lemma digit_0: "digit_char 0 = CHR ''0''"
  unfolding digit_char_def by simp code_simp

lemma digit_1: "digit_char (Suc 0) = CHR ''1''"
  unfolding digit_char_def by simp code_simp

lemmas init_defs = initialize_sessions_def init_server_def enter_transport_cm_def
  enter_session_cm_def do_initialize_def do_list_tools_def do_print_def emit_def
  server_id_of_def prefixed_def MCPClient_def Let_def str_nat_small digit_0 digit_1

text \<open>
  C8, as stated, fails. One server advertises two tools, both named \<open>get_weather\<close>:
  \<open>initialize_sessions\<close> succeeds and the namespace holds one entry, not two.
\<close>

theorem namespace_counterexample:
  "list_tools echo_env 2 1 = (Inr [weather_tool, echo_tool], 2) \<and>
   fst (initialize_sessions echo_env (MCPClient ''m'' [''a.py'']) start) = Inr () \<and>
   sessions (fst (snd (initialize_sessions echo_env (MCPClient ''m'' [''a.py'']) start))) =
     [(''server0'', 1)] \<and>
   tool_mapping (fst (snd (initialize_sessions echo_env (MCPClient ''m'' [''a.py'']) start))) =
     [(''server0_get_weather'', 1, ''get_weather'')]"
  by (simp add: echo_env_def echo_tool_def demo_defs init_defs)

text \<open>
  C8, amended. A fresh client whose \<open>initialize_sessions\<close> succeeds on \<open>N\<close> servers, each of
  which advertises pairwise distinct tool names in its own list (names may repeat across
  servers): there are \<open>N\<close> blocks, one per server, of a session and the tools its
  \<open>list_tools\<close> returned, such that \<open>sessions\<close> maps \<open>server i\<close> to the session of block \<open>i\<close>,
  \<open>tool_mapping\<close> is the blocks' entries \<open>server i _ name \<mapsto> (session, name)\<close> in order, its
  length is the sum of the blocks' tool counts, its keys are pairwise distinct, and every
  key resolves to the session and original name it came from.
\<close>

theorem namespace_after_initialization:
  fixes env :: "('w, 'j, 'c) env"
  assumes "initialize_sessions env (MCPClient model srcs) s = (Inr u, c', s')"
    and "\<forall>w h ts w'. list_tools env w h = (Inr ts, w') \<longrightarrow> distinct (map name ts)"
  shows "\<exists>blocks :: (nat \<times> 'j tool list) list. length blocks = length srcs \<and>
           (\<forall>(session, tools) \<in> set blocks. \<exists>w w'. list_tools env w session = (Inr tools, w')) \<and>
           sessions c' = sessions_from 0 blocks \<and>
           tool_mapping c' = namespace_from 0 blocks \<and>
           length (tool_mapping c') = sum_list (map (\<lambda>(session, tools). length tools) blocks) \<and>
           distinct (map fst (tool_mapping c')) \<and>
           (\<forall>(i, session, tools) \<in> set (enumerate 0 blocks). \<forall>t \<in> set tools.
              map_of (tool_mapping c') (prefixed (server_id_of i) (name t)) = Some (session, name t))"
proof -
  have run: "init_loop env Stdio (MCPClient model srcs) s 0 srcs = (Inr u, c', s')"
    using assms(1) by (simp add: initialize_sessions_def MCPClient_def)
  have inv: "ids_below 0 (sessions (MCPClient model srcs))"
    "keys_below 0 (tool_mapping (MCPClient model srcs))"
    "distinct (map fst (tool_mapping (MCPClient model srcs)))"
    by (simp_all add: MCPClient_def ids_below_def keys_below_def)
  from init_loop_namespace[OF run assms(2) inv] obtain blocks :: "(nat \<times> 'j tool list) list"
    where b: "length blocks = length srcs"
      "\<forall>(session, tools) \<in> set blocks. \<exists>w w'. list_tools env w session = (Inr tools, w')"
      "sessions c' = sessions (MCPClient model srcs) @ sessions_from 0 blocks"
      "tool_mapping c' = tool_mapping (MCPClient model srcs) @ namespace_from 0 blocks"
      "distinct (map fst (tool_mapping c'))"
    by blast
  have tm: "tool_mapping c' = namespace_from 0 blocks" using b(4) by (simp add: MCPClient_def)
  have ss: "sessions c' = sessions_from 0 blocks" using b(3) by (simp add: MCPClient_def)
  have len: "length (tool_mapping c') = sum_list (map (\<lambda>(session, tools). length tools) blocks)"
    by (simp add: tm length_namespace_from)
  have res: "\<forall>(i, session, tools) \<in> set (enumerate 0 blocks). \<forall>t \<in> set tools.
              map_of (tool_mapping c') (prefixed (server_id_of i) (name t)) = Some (session, name t)"
  proof (clarify)
    fix i session and tools :: "'j tool list" and t
    assume "(i, session, tools) \<in> set (enumerate 0 blocks)" "t \<in> set tools"
    from namespace_from_member[OF this]
    have "(prefixed (server_id_of i) (name t), session, name t) \<in> set (tool_mapping c')"
      by (simp add: tm)
    with b(5) show "map_of (tool_mapping c') (prefixed (server_id_of i) (name t)) = Some (session, name t)"
      by (rule map_of_is_SomeI)
  qed
  from b(1,2,5) tm ss len res show ?thesis by blast
qed

theorem namespace_after_initialization_witness:
  "tool_mapping twins = [(''server0_get_weather'', 1, ''get_weather''),
                         (''server1_get_weather'', 3, ''get_weather'')] \<and>
   (\<exists>blocks :: (nat \<times> string tool list) list. length blocks = 2 \<and>
      sessions twins = sessions_from 0 blocks \<and>
      tool_mapping twins = namespace_from 0 blocks \<and>
      length (tool_mapping twins) = sum_list (map (\<lambda>(session, tools). length tools) blocks) \<and>
      distinct (map fst (tool_mapping twins)))"
proof -
  have run: "initialize_sessions twin_env (MCPClient ''m'' [''a.py'', ''b.py'']) start =
               (Inr (), twins, twins_end)"
    by (simp add: twin_env_def twins_def twins_end_def demo_defs init_defs)
  have names: "\<forall>w h ts w'. list_tools twin_env w h = (Inr ts, w') \<longrightarrow> distinct (map name ts)"
    by (auto simp: twin_env_def demo_defs)
  obtain blocks :: "(nat \<times> string tool list) list"
    where b: "length blocks = length [''a.py'', ''b.py''] \<and>
           (\<forall>(session, tools) \<in> set blocks.
              \<exists>w w'. list_tools twin_env w session = (Inr tools, w')) \<and>
           sessions twins = sessions_from 0 blocks \<and>
           tool_mapping twins = namespace_from 0 blocks \<and>
           length (tool_mapping twins) = sum_list (map (\<lambda>(session, tools). length tools) blocks) \<and>
           distinct (map fst (tool_mapping twins)) \<and>
           (\<forall>(i, session, tools) \<in> set (enumerate 0 blocks). \<forall>t \<in> set tools.
              map_of (tool_mapping twins) (prefixed (server_id_of i) (name t)) =
                Some (session, name t))"
    using namespace_after_initialization[OF run names] ..
  from b have "length blocks = 2" by simp
  moreover from b have "sessions twins = sessions_from 0 blocks" by blast
  moreover from b have "tool_mapping twins = namespace_from 0 blocks" by blast
  moreover from b have "length (tool_mapping twins) =
      sum_list (map (\<lambda>(session, tools). length tools) blocks)" by blast
  moreover from b have "distinct (map fst (tool_mapping twins))" by blast
  ultimately have "\<exists>blocks :: (nat \<times> string tool list) list. length blocks = 2 \<and>
      sessions twins = sessions_from 0 blocks \<and>
      tool_mapping twins = namespace_from 0 blocks \<and>
      length (tool_mapping twins) = sum_list (map (\<lambda>(session, tools). length tools) blocks) \<and>
      distinct (map fst (tool_mapping twins))" by blast
  moreover have "tool_mapping twins = [(''server0_get_weather'', 1, ''get_weather''),
                         (''server1_get_weather'', 3, ''get_weather'')]"
    by (simp add: twins_def)
  ultimately show ?thesis by blast
qed

text \<open>
  C5, as stated, fails. A client that already maps \<open>server0_get_weather\<close> to session 1
  is initialised again: \<open>initialize_sessions\<close> succeeds and the entry now names session
  6. A fresh client whose one server advertises two tools named \<open>get_weather\<close> is
  initialised: \<open>initialize_sessions\<close> succeeds and the namespace holds one entry. No
  collision is reported in either run.
\<close>

theorem registration_counterexample:
  "map_of (tool_mapping one_server) ''server0_get_weather'' = Some (1, ''get_weather'') \<and>
   fst (initialize_sessions twin_env one_server \<lparr>world = 5, trace = []\<rparr>) = Inr () \<and>
   fst (snd (initialize_sessions twin_env one_server \<lparr>world = 5, trace = []\<rparr>)) = rejoined \<and>
   fst (initialize_sessions (demo_env (\<lambda>w. [says ''done'']) (\<lambda>w h. [weather_tool, echo_tool]) ok_run)
          (MCPClient ''m'' [''a.py'']) start) = Inr () \<and>
   tool_mapping (fst (snd (initialize_sessions
          (demo_env (\<lambda>w. [says ''done'']) (\<lambda>w h. [weather_tool, echo_tool]) ok_run)
          (MCPClient ''m'' [''a.py'']) start))) = [(''server0_get_weather'', 1, ''get_weather'')]"
  by (simp add: twin_env_def rejoined_def echo_tool_def demo_defs init_defs)

text \<open>
  C5, amended. Registering a session's tools (client.py:51-53) is a plain assignment per
  tool: afterwards every advertised tool's prefixed name maps to the new session and the
  original name, whatever the mapping held for that key before, and every other key is
  as before. Nothing is detected or reported: \<open>register_tools\<close> has no error result.
\<close>

theorem registration_overwrites:
  "(\<forall>t \<in> set tools.
      map_of (register_tools server_id session tools tm) (prefixed server_id (name t)) =
        Some (session, name t)) \<and>
   (\<forall>k. k \<notin> (\<lambda>t. prefixed server_id (name t)) ` set tools \<longrightarrow>
      map_of (register_tools server_id session tools tm) k = map_of tm k)"
  by (auto simp: map_of_register_tools) (simp add: prefixed_def)

theorem registration_overwrites_witness:
  "map_of (tool_mapping one_server) ''server0_get_weather'' = Some (1, ''get_weather'') \<and>
   map_of (register_tools ''server0'' 6 [weather_tool] (tool_mapping one_server))
     ''server0_get_weather'' = Some (6, ''get_weather'')"
  using registration_overwrites[where tools = "[weather_tool]" and server_id = "''server0''"
      and session = 6 and tm = "tool_mapping one_server"]
  by (simp add: one_server_def weather_tool_def prefixed_def)

section \<open>Release of resources\<close>

lemma acquisitions_append [simp]: "acquisitions (a @ b) = acquisitions a @ acquisitions b"
  by (simp add: acquisitions_def map_filter_def)

lemma releases_append [simp]: "releases (a @ b) = releases a @ releases b"
  by (simp add: releases_def map_filter_def)

lemma acquisitions_Nil [simp]: "acquisitions [] = []"
  by (simp add: acquisitions_def)

lemma releases_Nil [simp]: "releases [] = []"
  by (simp add: releases_def)

lemma acquisitions_Cons [simp]:
  "acquisitions (e # tr) =
     (case acquired_of e of None \<Rightarrow> acquisitions tr | Some r \<Rightarrow> r # acquisitions tr)"
  by (simp add: acquisitions_def split: option.splits)

lemma releases_Cons [simp]:
  "releases (e # tr) =
     (case released_of e of None \<Rightarrow> releases tr | Some r \<Rightarrow> r # releases tr)"
  by (simp add: releases_def split: option.splits)

lemma loop_events_quiet:
  "list_all (loop_event tools) evs \<Longrightarrow> acquisitions evs = [] \<and> releases evs = []"
proof (induction evs)
  case Nil
  show ?case by simp
next
  case (Cons e evs)
  then have "loop_event tools e" and ih: "acquisitions evs = [] \<and> releases evs = []" by simp_all
  from \<open>loop_event tools e\<close> have "acquired_of e = None \<and> released_of e = None"
    by (cases e) simp_all
  with ih show ?case by simp
qed

lemma collect_tools_quiet:
  "collect_tools env s ss acc = (r, s1) \<Longrightarrow>
   acquisitions (trace s1) = acquisitions (trace s) \<and> releases (trace s1) = releases (trace s)"
  by (induction ss arbitrary: s acc)
     (auto simp: do_list_tools_def split: prod.splits sum.splits)

lemma process_query_quiet:
  fixes env :: "('w, 'j, 'c) env"
  assumes "process_query env c s query = Some (r, s')"
  shows "acquisitions (trace s') = acquisitions (trace s) \<and> releases (trace s') = releases (trace s)"
proof -
  obtain r1 s1 where ct: "collect_tools env s (sessions c) [] = (r1, s1)"
    by (cases "collect_tools env s (sessions c) []")
  note q1 = collect_tools_quiet[OF ct]
  show ?thesis
  proof (cases r1)
    case (Inl e)
    with assms ct have "s' = s1" by (simp add: process_query_def)
    with q1 show ?thesis by simp
  next
    case (Inr tools)
    obtain r2 s2 where rq: "request_message env c tools s1 [UserMsg query] = (r2, s2)"
      by (cases "request_message env c tools s1 [UserMsg query]")
    from request_message_events[OF rq] q1
    have q2: "acquisitions (trace s2) = acquisitions (trace s) \<and>
              releases (trace s2) = releases (trace s)" by simp
    show ?thesis
    proof (cases r2)
      case (Inl e)
      with assms ct Inr rq have "s' = s2" by (simp add: process_query_def)
      with q2 show ?thesis by simp
    next
      case (Inr m)
      with assms ct \<open>r1 = Inr tools\<close> rq have "tool_loop env c tools s2
          \<lparr>messages = [UserMsg query],
           final_text = [case content m of None \<Rightarrow> [] | Some t \<Rightarrow> t]\<rparr> m = Some (r, s')"
        by (simp add: process_query_def)
      from tool_loop_events[OF this] obtain evs
        where e: "trace s' = trace s2 @ evs" "list_all (loop_event tools) evs" by auto
      from loop_events_quiet[OF e(2)] e(1) q2 show ?thesis by simp
    qed
  qed
qed

lemma init_server_stack:
  assumes "init_server env k c s i src = (r, c', s')"
    and "acquisitions (trace s) = base @ rev (exit_stack c)"
  shows "acquisitions (trace s') = base @ rev (exit_stack c') \<and>
         releases (trace s') = releases (trace s)"
  using assms
  by (auto simp: init_server_def enter_transport_cm_def enter_session_cm_def do_initialize_def
        do_list_tools_def do_print_def Let_def split: prod.splits sum.splits)

lemma init_loop_stack:
  assumes "init_loop env k c s i srcs = (r, c', s')"
    and "acquisitions (trace s) = base @ rev (exit_stack c)"
  shows "acquisitions (trace s') = base @ rev (exit_stack c') \<and>
         releases (trace s') = releases (trace s)"
  using assms
proof (induction srcs arbitrary: c s i)
  case Nil
  then show ?case by simp
next
  case (Cons src srcs)
  obtain r1 c1 s1 where one: "init_server env k c s i src = (r1, c1, s1)"
    by (cases "init_server env k c s i src") auto
  note st = init_server_stack[OF one Cons.prems(2)]
  show ?case
  proof (cases r1)
    case (Inl e)
    with Cons.prems(1) one have "c' = c1" "s' = s1" by simp_all
    with st show ?thesis by simp
  next
    case (Inr u)
    with Cons.prems(1) one have "init_loop env k c1 s1 (Suc i) srcs = (r, c', s')" by simp
    from Cons.IH[OF this] st show ?thesis by simp
  qed
qed

lemma unwind_releases:
  "unwind env s rs exc = (e, s') \<Longrightarrow>
   releases (trace s') = releases (trace s) @ rs \<and>
   acquisitions (trace s') = acquisitions (trace s)"
proof (induction rs arbitrary: s exc)
  case Nil
  then show ?case by simp
next
  case (Cons r rs)
  obtain x w' where x: "exit_cm env (world s) r exc = (x, w')"
    by (cases "exit_cm env (world s) r exc")
  show ?case
  proof (cases x)
    case (Inl new_exc)
    with Cons.prems x
    have "unwind env (emit (Released r) (s\<lparr>world := w'\<rparr>)) rs (Some new_exc) = (e, s')" by simp
    from Cons.IH[OF this] show ?thesis by simp
  next
    case (Inr suppress)
    with Cons.prems x
    have "unwind env (emit (Released r) (s\<lparr>world := w'\<rparr>)) rs (if suppress then None else exc) = (e, s')"
      by simp
    from Cons.IH[OF this] show ?thesis by simp
  qed
qed

lemma cleanup_releases:
  assumes "cleanup env c s = (r, c', s')"
  shows "exit_stack c' = [] \<and> releases (trace s') = releases (trace s) @ exit_stack c \<and>
         acquisitions (trace s') = acquisitions (trace s)"
proof -
  obtain e s1 where u: "unwind env s (exit_stack c) None = (e, s1)"
    by (cases "unwind env s (exit_stack c) None")
  with assms have "s' = s1" "exit_stack c' = []"
    by (auto simp: cleanup_def split: option.splits)
  with unwind_releases[OF u] show ?thesis by simp
qed

lemma finally_cleanup_releases:
  assumes "finally_cleanup env c s outcome = (r, c', s')"
  shows "exit_stack c' = [] \<and> releases (trace s') = releases (trace s) @ exit_stack c \<and>
         acquisitions (trace s') = acquisitions (trace s)"
proof -
  obtain r1 c1 s1 where cl: "cleanup env c s = (r1, c1, s1)"
    by (cases "cleanup env c s") auto
  with assms have "c' = c1" "s' = s1"
    by (auto simp: finally_cleanup_def split: sum.splits)
  with cleanup_releases[OF cl] show ?thesis by simp
qed

lemma cleanup_again:
  "exit_stack c = [] \<Longrightarrow> cleanup env c s = (Inr (), c, s)"
  by (cases c) (simp add: cleanup_def)

lemma do_print_quiet [simp]:
  "acquisitions (trace (do_print t s)) = acquisitions (trace s)"
  "releases (trace (do_print t s)) = releases (trace s)"
  by (simp_all add: do_print_def)

lemma chat_while_quiet:
  fixes env :: "('w, 'j, 'c) env"
  assumes run: "chat_while env c s = Some y"
  shows "acquisitions (trace (snd y)) = acquisitions (trace s) \<and>
         releases (trace (snd y)) = releases (trace s)"
proof (rule chat_while.raw_induct[where P = "\<lambda>env c s y.
         acquisitions (trace (snd y)) = acquisitions (trace s) \<and>
         releases (trace (snd y)) = releases (trace s)", OF _ run])
  fix f :: "('w, 'j, 'c) env \<Rightarrow> client \<Rightarrow> ('w, 'j, 'c) sys \<Rightarrow>
              ((exn + unit) \<times> ('w, 'j, 'c) sys) option"
    and env :: "('w, 'j, 'c) env" and c and s :: "('w, 'j, 'c) sys" and y
  assume IH: "\<And>env c s y. f env c s = Some y \<Longrightarrow>
                acquisitions (trace (snd y)) = acquisitions (trace s) \<and>
                releases (trace (snd y)) = releases (trace s)"
  assume eq: "(case do_input env s txt_prompt of
        (Inl e, s1) \<Rightarrow>
          if is_Exception e then f env c (do_print (txt_error @ str_exn e) s1)
          else Some (Inl e, s1)
      | (Inr line, s1) \<Rightarrow>
          (let query = py_strip env line in
           if py_lower env query = ''quit'' then Some (Inr (), s1)
           else Option.bind (process_query env c s1 query)
                  (\<lambda>r. case r of
                     (Inl e, s2) \<Rightarrow>
                       if is_Exception e then f env c (do_print (txt_error @ str_exn e) s2)
                       else Some (Inl e, s2)
                   | (Inr response, s2) \<Rightarrow>
                       f env c (do_print ([CHR 0x0A] @ response) s2)))) = Some y"
  obtain ri s1 where di: "do_input env s txt_prompt = (ri, s1)"
    by (cases "do_input env s txt_prompt")
  then have q1: "acquisitions (trace s1) = acquisitions (trace s) \<and>
                 releases (trace s1) = releases (trace s)"
    by (auto simp: do_input_def split: prod.splits)
  show "acquisitions (trace (snd y)) = acquisitions (trace s) \<and>
        releases (trace (snd y)) = releases (trace s)"
  proof (cases ri)
    case (Inl e)
    show ?thesis
    proof (cases "is_Exception e")
      case True
      with eq di Inl have "f env c (do_print (txt_error @ str_exn e) s1) = Some y" by simp
      from IH[OF this] q1 show ?thesis by simp
    next
      case False
      with eq di Inl have "y = (Inl e, s1)" by simp
      with q1 show ?thesis by simp
    qed
  next
    case (Inr line)
    show ?thesis
    proof (cases "py_lower env (py_strip env line) = ''quit''")
      case True
      with eq di Inr have "y = (Inr (), s1)" by (simp add: Let_def)
      with q1 show ?thesis by simp
    next
      case False
      with eq di Inr obtain rq s2
        where pq: "process_query env c s1 (py_strip env line) = Some (rq, s2)"
          and k: "(case rq of
                     Inl e \<Rightarrow>
                       if is_Exception e then f env c (do_print (txt_error @ str_exn e) s2)
                       else Some (Inl e, s2)
                   | Inr response \<Rightarrow> f env c (do_print ([CHR 0x0A] @ response) s2)) = Some y"
        by (auto simp: Let_def bind_eq_Some_conv)
      from process_query_quiet[OF pq] q1
      have q2: "acquisitions (trace s2) = acquisitions (trace s) \<and>
                releases (trace s2) = releases (trace s)" by simp
      show ?thesis
      proof (cases rq)
        case (Inl e)
        show ?thesis
        proof (cases "is_Exception e")
          case True
          with k Inl have "f env c (do_print (txt_error @ str_exn e) s2) = Some y" by simp
          from IH[OF this] q2 show ?thesis by simp
        next
          case False
          with k Inl have "y = (Inl e, s2)" by simp
          with q2 show ?thesis by simp
        qed
      next
        case (Inr response)
        with k have "f env c (do_print ([CHR 0x0A] @ response) s2) = Some y" by simp
        from IH[OF this] q2 show ?thesis by simp
      qed
    qed
  qed
qed

lemma run_client_releases:
  fixes env :: "('w, 'j, 'c) env"
  assumes "run_client env c s = Some (r, c', s')" and "exit_stack c = []"
  shows "\<exists>acquired. acquisitions (trace s') = acquisitions (trace s) @ acquired \<and>
           releases (trace s') = releases (trace s) @ rev acquired \<and>
           exit_stack c' = [] \<and> cleanup env c' s' = (Inr (), c', s')"
proof -
  obtain ri c1 s1 where init: "initialize_sessions env c s = (ri, c1, s1)"
    by (cases "initialize_sessions env c s") auto
  have "init_loop env Stdio c s 0 (server_sources c) = (ri, c1, s1)"
    using init by (simp add: initialize_sessions_def)
  from init_loop_stack[OF this, of "acquisitions (trace s)"] assms(2)
  have a1: "acquisitions (trace s1) = acquisitions (trace s) @ rev (exit_stack c1)"
    and r1: "releases (trace s1) = releases (trace s)" by simp_all
  have "\<exists>s2 outcome. finally_cleanup env c1 s2 outcome = (r, c', s') \<and>
          acquisitions (trace s2) = acquisitions (trace s1) \<and>
          releases (trace s2) = releases (trace s1)"
  proof (cases ri)
    case (Inl e)
    with assms(1) init have "finally_cleanup env c1 s1 (Inl e) = (r, c', s')"
      by (simp add: run_client_def)
    then show ?thesis by blast
  next
    case (Inr u)
    with assms(1) init obtain outcome s2
      where cl: "chat_loop env c1 s1 = Some (outcome, s2)"
        and fc: "finally_cleanup env c1 s2 outcome = (r, c', s')"
      by (auto simp: run_client_def bind_eq_Some_conv)
    from cl have "chat_while env c1 (do_print txt_started s1) = Some (outcome, s2)"
      by (simp add: chat_loop_def)
    from chat_while_quiet[OF this]
    have "acquisitions (trace s2) = acquisitions (trace s1) \<and>
          releases (trace s2) = releases (trace s1)" by simp
    with fc show ?thesis by blast
  qed
  then obtain s2 outcome
    where fc: "finally_cleanup env c1 s2 outcome = (r, c', s')"
      and q: "acquisitions (trace s2) = acquisitions (trace s1)"
        "releases (trace s2) = releases (trace s1)"
    by blast
  from finally_cleanup_releases[OF fc]
  have e: "exit_stack c' = []" "releases (trace s') = releases (trace s2) @ exit_stack c1"
    "acquisitions (trace s') = acquisitions (trace s2)" by simp_all
  have "acquisitions (trace s') = acquisitions (trace s) @ rev (exit_stack c1) \<and>
        releases (trace s') = releases (trace s) @ rev (rev (exit_stack c1)) \<and>
        exit_stack c' = [] \<and> cleanup env c' s' = (Inr (), c', s')"
    using e q a1 r1 cleanup_again[OF e(1)] by simp
  then show ?thesis by blast
qed

lemma main_releases:
  fixes env :: "('w, 'j, 'c) env"
  assumes "main env s model api_key = Some (r, s')"
  shows "\<exists>acquired. acquisitions (trace s') = acquisitions (trace s) @ acquired \<and>
           releases (trace s') = releases (trace s) @ rev acquired"
proof (cases "api_key = None \<or> api_key = Some []")
  case True
  with assms have "s' = do_print txt_no_key s" by (auto simp: main_def)
  then have "acquisitions (trace s') = acquisitions (trace s) @ [] \<and>
             releases (trace s') = releases (trace s) @ rev []" by simp
  then show ?thesis by blast
next
  case False
  with assms obtain c'
    where "run_client env
             (MCPClient model [''D:/ZQY/mcp-server-weather/mcp-server/amap_server.py'']) s =
           Some (r, c', s')"
    by (auto simp: main_def bind_eq_Some_conv)
  from run_client_releases[OF this] show ?thesis by (auto simp: MCPClient_def)
qed

lemma run_client_returns_after_failed_init:
  "initialize_sessions env c s = (Inl e, c1, s1) \<Longrightarrow>
   run_client env c s = Some (finally_cleanup env c1 s1 (Inl e))"
  by (simp add: run_client_def)



end
